theory Spec2Isabelle
  imports Complex_Main "HOL-Library.Option_ord"
begin

section \<open>Python values, exceptions and string operations\<close>

text \<open>
  The pipeline core is Python. Strings are modelled as \<open>string\<close>, one \<open>char\<close> per code
  point below 256. Every \<open>raise\<close> of the source is a value of \<open>exn\<close>; a function that can
  raise returns \<open>exn + 'a\<close> with \<open>Inl\<close> for the exception. The \<open>ValueError\<close>s of the source
  carry formatted messages; the model keeps the values that are formatted into the message.
  Output written with \<open>print\<close> is not part of the model.
\<close>

datatype value_error =
    NoAvailableSources "string list" "string list"
      \<comment> \<open>\<open>No available sources found. Enabled: {available}, Primary: {primary_sources}\<close>\<close>
  | NoDataReceived string
      \<comment> \<open>\<open>No data received from {url}\<close>\<close>
  | UnexpectedResponseFormat
  | RowCountCheckFailed int int
      \<comment> \<open>\<open>Row count check failed: {actual_rows} < {min_rows} (minimum)\<close>\<close>
  | NullRatioCheckFailed string rat rat
      \<comment> \<open>\<open>Null ratio check failed for column '{column}': {null_ratio} > {max_ratio} (maximum)\<close>\<close>
  | AtLeastOneSourceRequired
      \<comment> \<open>\<open>At least one source is required\<close>\<close>

text \<open>
  One entry of a pydantic \<open>ValidationError\<close>: the field (for an item of a list, with its
  position) and, for a validator that raised, its error.
\<close>

datatype validation_issue =
    NoVariantMatches string nat
  | ValidatorRaised string value_error

datatype exn =
    ValueError value_error
  | ValidationError "validation_issue list"
  | KeyError string
  | IndexError
  | TypeError
  | AttributeError string
  | ConnectionError string
  | RequestException string
  | EngineError string
  | OtherException string

subsection \<open>\<open>str.startswith\<close>, \<open>in\<close>, \<open>str.split\<close>, \<open>str.strip\<close>\<close>

fun startswith :: "string \<Rightarrow> string \<Rightarrow> bool" where
  "startswith s [] = True"
| "startswith [] (p # ps) = False"
| "startswith (c # cs) (p # ps) = (c = p \<and> startswith cs ps)"

text \<open>\<open>sub in s\<close>: some suffix of \<open>s\<close> starts with \<open>sub\<close>.\<close>

fun str_contains :: "string \<Rightarrow> string \<Rightarrow> bool" where
  "str_contains [] sub = (sub = [])"
| "str_contains (c # cs) sub = (startswith (c # cs) sub \<or> str_contains cs sub)"

text \<open>
  \<open>s.split(sep)\<close> for a non-empty separator: the text is cut at the leftmost occurrences of
  \<open>sep\<close>, which do not overlap. \<open>acc\<close> is the piece being read. Python raises on an empty
  separator; the source only splits at \<open>==\<close>, and the model then returns the text uncut.
\<close>

function py_split_acc :: "string \<Rightarrow> string \<Rightarrow> string \<Rightarrow> string list" where
  "py_split_acc sep acc s =
     (if s = [] then [acc]
      else if sep \<noteq> [] \<and> startswith s sep
        then acc # py_split_acc sep [] (drop (length sep) s)
      else py_split_acc sep (acc @ [hd s]) (tl s))"
  by pat_completeness auto
termination
  by (relation "measure (\<lambda>(sep, acc, s). length s)") auto

declare py_split_acc.simps [simp del]

definition py_split :: "string \<Rightarrow> string \<Rightarrow> string list" where
  "py_split s sep = py_split_acc sep [] s"

definition py_index :: "'a list \<Rightarrow> nat \<Rightarrow> exn + 'a" where
  "py_index xs i = (if i < length xs then Inr (xs ! i) else Inl IndexError)"

text \<open>
  The characters \<open>str.strip()\<close> removes: those with \<open>str.isspace()\<close> true, which below 256
  are the code points 9 to 13, 28 to 32, 133 and 160.
\<close>

definition is_py_space :: "char \<Rightarrow> bool" where
  "is_py_space c = ((of_char c :: nat) \<in> {9, 10, 11, 12, 13, 28, 29, 30, 31, 32, 133, 160})"

definition py_lstrip_chars :: "string \<Rightarrow> string \<Rightarrow> string" where
  "py_lstrip_chars s chars = dropWhile (\<lambda>c. c \<in> set chars) s"

definition py_rstrip_chars :: "string \<Rightarrow> string \<Rightarrow> string" where
  "py_rstrip_chars s chars = rev (dropWhile (\<lambda>c. c \<in> set chars) (rev s))"

definition py_strip_chars :: "string \<Rightarrow> string \<Rightarrow> string" where
  "py_strip_chars s chars = py_rstrip_chars (py_lstrip_chars s chars) chars"

definition py_strip :: "string \<Rightarrow> string" where
  "py_strip s = rev (dropWhile is_py_space (rev (dropWhile is_py_space s)))"

section \<open>Condition evaluator (\<open>etl_ops.evaluate_condition\<close>)\<close>

text \<open>The two quote characters stripped from the target: \<open>'\<close> and \<open>"\<close>.\<close>

definition quote_chars :: string where
  "quote_chars = [CHR 0x27, CHR 0x22]"

definition evaluate_condition :: "string \<Rightarrow> string \<Rightarrow> exn + bool" where
  "evaluate_condition condition env =
     (if condition = ''true'' then Inr True
      else if condition = ''false'' then Inr False
      else if str_contains condition ''env =='' then
        (case py_index (py_split condition ''=='') 1 of
           Inl e \<Rightarrow> Inl e
         | Inr part \<Rightarrow> Inr (env = py_strip_chars (py_strip part) quote_chars))
      else Inr False)"

text \<open>
  The grammar of the specification: the literals \<open>true\<close> and \<open>false\<close>, and
  \<open>env == '<value>'\<close> with the value between two single or two double quotes.
\<close>

definition is_env_equality :: "string \<Rightarrow> bool" where
  "is_env_equality c =
     (startswith c ''env == '' \<and> 9 \<le> length c \<and> c ! 7 \<in> set quote_chars \<and> last c = c ! 7)"

definition spec_grammar :: "string \<Rightarrow> bool" where
  "spec_grammar c = (c = ''true'' \<or> c = ''false'' \<or> is_env_equality c)"

section \<open>Sources and the outside world\<close>

text \<open>
  A source as the selector and the probe read it: a dictionary. Every variant of the schema
  carries the keys \<open>type\<close>, \<open>name\<close> and \<open>enabled_if\<close> (the selector indexes all three); the
  keys that only some variants carry are optional here, and indexing an absent one raises
  \<open>KeyError\<close>.
\<close>

record source =
  stype :: string
  name :: string
  enabled_if :: string
  path :: "string option"
  base_url :: "string option"
  conn_id :: "string option"
  table :: "string option"

text \<open>
  What the program reads from outside itself. It is fixed during one call: \<open>glob.glob\<close>
  on a pattern, \<open>requests.head\<close> on a URL (the status code of the reply, redirects not
  followed), \<open>urllib.parse.urljoin\<close>, and \<open>requests.get\<close>, whose first argument is the
  number of GET requests sent before this one, so that a server may answer every request
  differently. Each may raise. Timeouts are not modelled.
\<close>

datatype json =
    JNull
  | JBool bool
  | JNum int
  | JStr string
  | JList "json list"
  | JDict "(string \<times> json) list"

datatype query_value = QInt int | QStr string

record response =
  status_code :: int
  json_body :: "exn + json"

record world =
  glob_glob :: "string \<Rightarrow> exn + string list"
  requests_head :: "string \<Rightarrow> exn + int"
  urljoin :: "string \<Rightarrow> string \<Rightarrow> string"
  requests_get :: "nat \<Rightarrow> string \<Rightarrow> (string \<rightharpoonup> query_value) \<Rightarrow> exn + response"

section \<open>Connectivity probe (\<open>io_sources.test_file_exists\<close>, \<open>etl_ops.test_source_connectivity\<close>)\<close>

definition test_file_exists :: "world \<Rightarrow> string \<Rightarrow> exn + bool" where
  "test_file_exists w pattern =
     (case glob_glob w pattern of
        Inl e \<Rightarrow> Inl e
      | Inr matches \<Rightarrow> Inr (length matches > 0))"

definition getitem :: "string \<Rightarrow> 'a option \<Rightarrow> exn + 'a" where
  "getitem key v = (case v of None \<Rightarrow> Inl (KeyError key) | Some x \<Rightarrow> Inr x)"

text \<open>The body of the \<open>try\<close> block.\<close>

definition probe_body :: "world \<Rightarrow> source \<Rightarrow> exn + bool" where
  "probe_body w source =
     (if stype source = ''file'' then
        (case getitem ''path'' (path source) of
           Inl e \<Rightarrow> Inl e
         | Inr p \<Rightarrow> test_file_exists w p)
      else if stype source = ''rest'' then
        (case getitem ''base_url'' (base_url source) of
           Inl e \<Rightarrow> Inl e
         | Inr b \<Rightarrow>
            (case getitem ''path'' (path source) of
               Inl e \<Rightarrow> Inl e
             | Inr p \<Rightarrow>
                (case requests_head w (py_rstrip_chars b ''/'' @ ''/'' @ py_lstrip_chars p ''/'') of
                   Inl e \<Rightarrow> Inl e
                 | Inr code \<Rightarrow> Inr (code = 200))))
      else if stype source = ''postgres'' then Inr True
      else Inr False)"

text \<open>
  \<open>except Exception\<close>: the handler prints the source's name and the exception, and returns
  \<open>False\<close>.
\<close>

definition test_source_connectivity :: "world \<Rightarrow> source \<Rightarrow> exn + bool" where
  "test_source_connectivity w source =
     (case probe_body w source of
        Inl e \<Rightarrow> Inr False
      | Inr b \<Rightarrow> Inr b)"

section \<open>Source selector (\<open>etl_ops.select_source\<close>)\<close>

text \<open>
  The specification as a dictionary, with the keys of \<open>spec_schema.PipelineSpec\<close>. The
  selector reads \<open>sources\<close> and \<open>source_routing.primary\<close>.
\<close>

record schedule_config =
  on_demand :: bool
  daily_02 :: bool
  weekly_mon_06 :: bool

record transform_config =
  sql_file :: string
  params :: "(string \<times> string) list"

record sqlite_output =
  sqlite_path :: string
  sqlite_mode :: string
  sqlite_table :: string

record parquet_output =
  parquet_dir :: string
  partition_by :: "string list"

record outputs_config =
  sqlite :: "sqlite_output option"
  parquet :: "parquet_output option"

record null_ratio_check =
  check_columns :: "string list"
  check_max :: rat

record checks_config =
  min_rows :: int
  null_ratio :: "null_ratio_check option"

record source_routing_config =
  primary :: "string list"

record pipeline_spec =
  pipeline_name :: string
  schedule :: schedule_config
  profile :: string
  sources :: "source list"
  source_routing :: source_routing_config
  transform :: transform_config
  outputs :: outputs_config
  checks :: checks_config

text \<open>The first loop: the sources whose condition holds, in the order of the list.\<close>

fun enabled_sources :: "source list \<Rightarrow> string \<Rightarrow> exn + source list" where
  "enabled_sources [] env = Inr []"
| "enabled_sources (source # rest) env =
     (case evaluate_condition (enabled_if source) env of
        Inl e \<Rightarrow> Inl e
      | Inr b \<Rightarrow>
         (case enabled_sources rest env of
            Inl e \<Rightarrow> Inl e
          | Inr es \<Rightarrow> Inr (if b then source # es else es)))"

text \<open>
  The inner loop for one name of the priority list: \<open>Inr True\<close> when a source of that name
  passed the probe (the function returns the name), \<open>Inr False\<close> when the loop ran out.
\<close>

fun probe_named :: "world \<Rightarrow> string \<Rightarrow> source list \<Rightarrow> exn + bool" where
  "probe_named w source_name [] = Inr False"
| "probe_named w source_name (source # rest) =
     (if name source = source_name then
        (case test_source_connectivity w source of
           Inl e \<Rightarrow> Inl e
         | Inr ok \<Rightarrow> if ok then Inr True else probe_named w source_name rest)
      else probe_named w source_name rest)"

fun select_loop :: "world \<Rightarrow> source list \<Rightarrow> string list \<Rightarrow> string list \<Rightarrow> exn + string" where
  "select_loop w enabled all_primary [] =
     Inl (ValueError (NoAvailableSources (map name enabled) all_primary))"
| "select_loop w enabled all_primary (source_name # rest) =
     (case probe_named w source_name enabled of
        Inl e \<Rightarrow> Inl e
      | Inr found \<Rightarrow>
         if found then Inr source_name else select_loop w enabled all_primary rest)"

definition select_source :: "world \<Rightarrow> pipeline_spec \<Rightarrow> string \<Rightarrow> exn + string" where
  "select_source w spec env =
     (case enabled_sources (sources spec) env of
        Inl e \<Rightarrow> Inl e
      | Inr enabled \<Rightarrow>
         select_loop w enabled (primary (source_routing spec)) (primary (source_routing spec)))"

section \<open>Specification model (\<open>spec_schema.PipelineSpec\<close>)\<close>

text \<open>
  pydantic matches a \<open>type\<close> tag with \<open>re.match\<close> against \<open>^file$\<close>, \<open>^rest$\<close> or
  \<open>^postgres$\<close>; \<open>$\<close> also matches before one final newline.
\<close>

definition tag_matches :: "string \<Rightarrow> string \<Rightarrow> bool" where
  "tag_matches tag s = (s = tag \<or> s = tag @ [CHR 0x0A])"

text \<open>
  A source validates against \<open>Union[FileSource, RestSource, PostgresSource]\<close> when one of
  the three classes accepts it: the tag matches and the required keys are there.
\<close>

definition validates_as_source :: "source \<Rightarrow> bool" where
  "validates_as_source s =
     ((tag_matches ''file'' (stype s) \<and> path s \<noteq> None) \<or>
      (tag_matches ''rest'' (stype s) \<and> base_url s \<noteq> None \<and> path s \<noteq> None) \<or>
      (tag_matches ''postgres'' (stype s) \<and> conn_id s \<noteq> None \<and> table s \<noteq> None))"

fun source_issues :: "nat \<Rightarrow> source list \<Rightarrow> validation_issue list" where
  "source_issues i [] = []"
| "source_issues i (s # rest) =
     (if validates_as_source s then source_issues (Suc i) rest
      else NoVariantMatches ''sources'' i # source_issues (Suc i) rest)"

text \<open>The validator of the class, on the field \<open>sources\<close>.\<close>

definition validate_sources :: "source list \<Rightarrow> exn + source list" where
  "validate_sources v = (if v = [] then Inl (ValueError AtLeastOneSourceRequired) else Inr v)"

text \<open>
  Construction from keyword arguments that have the declared types. The fields are
  validated in the order of the class; \<open>pipeline_name\<close> is a \<open>str\<close> with no constraint and
  no validator. The validator of \<open>sources\<close> runs when the items of the list have validated.
\<close>

definition PipelineSpec :: "pipeline_spec \<Rightarrow> exn + pipeline_spec" where
  "PipelineSpec kwargs =
     (if source_issues 0 (sources kwargs) \<noteq> []
        then Inl (ValidationError (source_issues 0 (sources kwargs)))
      else
        (case validate_sources (sources kwargs) of
           Inl (ValueError m) \<Rightarrow> Inl (ValidationError [ValidatorRaised ''sources'' m])
         | Inl e \<Rightarrow> Inl e
         | Inr v \<Rightarrow> Inr (kwargs\<lparr>sources := v\<rparr>)))"

section \<open>REST extraction (\<open>io_sources.rest_fetch\<close>)\<close>

record pagination_config =
  pg_param :: "string option"
  pg_size :: "int option"

record since_config =
  since_field :: string
  since_mode :: string

text \<open>
  Truth value of the \<open>pagination\<close> argument: \<open>None\<close> and the empty dictionary are false.
\<close>

definition has_pagination :: "pagination_config option \<Rightarrow> bool" where
  "has_pagination pagination =
     (case pagination of
        None \<Rightarrow> False
      | Some pg \<Rightarrow> pg_param pg \<noteq> None \<or> pg_size pg \<noteq> None)"

definition page_param_of :: "pagination_config option \<Rightarrow> string" where
  "page_param_of pagination =
     (case pagination of
        None \<Rightarrow> ''page''
      | Some pg \<Rightarrow>
         if has_pagination pagination
           then (case pg_param pg of None \<Rightarrow> ''page'' | Some p \<Rightarrow> p)
         else ''page'')"

definition page_size_of :: "pagination_config option \<Rightarrow> int" where
  "page_size_of pagination =
     (case pagination of
        None \<Rightarrow> 100
      | Some pg \<Rightarrow>
         if has_pagination pagination
           then (case pg_size pg of None \<Rightarrow> 100 | Some n \<Rightarrow> n)
         else 100)"

definition request_params ::
  "pagination_config option \<Rightarrow> since_config option \<Rightarrow> int \<Rightarrow> (string \<rightharpoonup> query_value)" where
  "request_params pagination since page =
     (let params = [page_param_of pagination \<mapsto> QInt page, ''limit'' \<mapsto> QInt (page_size_of pagination)]
      in case since of
           None \<Rightarrow> params
         | Some sc \<Rightarrow> params(since_field sc \<mapsto> QStr ''2024-01-01''))"

definition dict_get :: "(string \<times> json) list \<Rightarrow> string \<Rightarrow> json \<Rightarrow> json" where
  "dict_get d key dflt = (case map_of d key of None \<Rightarrow> dflt | Some v \<Rightarrow> v)"

text \<open>The record array of a decoded body.\<close>

definition records_of :: "json \<Rightarrow> exn + json list" where
  "records_of data =
     (case data of
        JList xs \<Rightarrow> Inr xs
      | JDict d \<Rightarrow>
         (case dict_get d ''data'' (dict_get d ''results'' (dict_get d ''items'' (JList []))) of
            JList xs \<Rightarrow> Inr xs
          | _ \<Rightarrow> Inr [data])
      | _ \<Rightarrow> Inl (ValueError UnexpectedResponseFormat))"

text \<open>
  \<open>except requests.RequestException\<close>: such an exception is raised again as
  \<open>ConnectionError\<close>, any other goes through.
\<close>

definition reraise :: "exn \<Rightarrow> exn" where
  "reraise e = (case e of RequestException m \<Rightarrow> ConnectionError m | _ \<Rightarrow> e)"

text \<open>
  One request of the loop, up to the records of the page: \<open>requests.get\<close>,
  \<open>raise_for_status\<close> (an \<open>HTTPError\<close>, which is a \<open>RequestException\<close>, for a status from 400
  to 599), \<open>response.json()\<close>, and the choice of the record array. \<open>n\<close> counts the requests
  sent before.
\<close>

definition fetch_page ::
  "world \<Rightarrow> string \<Rightarrow> pagination_config option \<Rightarrow> since_config option \<Rightarrow> int \<Rightarrow> nat
     \<Rightarrow> exn + json list" where
  "fetch_page w url pagination since page n =
     (case requests_get w n url (request_params pagination since page) of
        Inl e \<Rightarrow> Inl (reraise e)
      | Inr resp \<Rightarrow>
         if 400 \<le> status_code resp \<and> status_code resp < 600
           then Inl (ConnectionError ''HTTPError'')
         else
           (case json_body resp of
              Inl e \<Rightarrow> Inl (reraise e)
            | Inr data \<Rightarrow> records_of data))"

text \<open>
  The \<open>while True\<close> loop. The state is \<open>page\<close>, \<open>all_data\<close> and the number \<open>n\<close> of requests
  sent so far; the result is the outcome of the loop (the rows and the last value of \<open>page\<close>,
  or the exception) and the number of requests sent.
\<close>

function rest_fetch_loop ::
  "world \<Rightarrow> string \<Rightarrow> pagination_config option \<Rightarrow> since_config option \<Rightarrow> int \<Rightarrow> json list \<Rightarrow> nat
     \<Rightarrow> (exn + json list \<times> int) \<times> nat" where
  "rest_fetch_loop w url pagination since page all_data n =
     (case fetch_page w url pagination since page n of
        Inl e \<Rightarrow> (Inl e, Suc n)
      | Inr records \<Rightarrow>
         if records = [] then (Inr (all_data, page), Suc n)
         else if \<not> has_pagination pagination \<or> int (length records) < page_size_of pagination
           then (Inr (all_data @ records, page), Suc n)
         else if page + 1 > 100
           then (Inr (all_data @ records, page + 1), Suc n)
         else rest_fetch_loop w url pagination since (page + 1) (all_data @ records) (Suc n))"
  by pat_completeness auto
termination
  by (relation "measure (\<lambda>(w, url, pagination, since, page, all_data, n). nat (101 - page))") auto

declare rest_fetch_loop.simps [simp del]

record fetch_result =
  fetched_rows :: "json list"
  last_page :: int

definition rest_fetch ::
  "world \<Rightarrow> string \<Rightarrow> string \<Rightarrow> pagination_config option \<Rightarrow> since_config option
     \<Rightarrow> (exn + fetch_result) \<times> nat" where
  "rest_fetch w base path0 pagination since =
     (let url = urljoin w base path0 in
      case rest_fetch_loop w url pagination since 1 [] 0 of
        (Inl e, n) \<Rightarrow> (Inl e, n)
      | (Inr (all_data, page), n) \<Rightarrow>
         if all_data = [] then (Inl (ValueError (NoDataReceived url)), n)
         else (Inr \<lparr>fetched_rows = all_data, last_page = page\<rparr>, n))"

section \<open>Quality gate (\<open>checks.assert_min_rows\<close>, \<open>checks.assert_null_ratio\<close>)\<close>

text \<open>
  A dataset is a columnar file: its column names and its rows, a row giving each column a
  value or nothing (SQL \<open>NULL\<close>). DuckDB reads the files by path. The argument
  \<open>rel_or_path\<close> is a \<open>str\<close>, as annotated; the branch for a relation object is outside the
  model.

  The null ratio is a DuckDB \<open>DOUBLE\<close>; the model computes it exactly, as a rational. What
  DuckDB returns for a division by zero depends on its version and settings (\<open>NULL\<close>, or
  NaN), so it is a parameter, \<open>zero_division\<close>.
\<close>

record dataset =
  columns :: "string list"
  rows :: "(string \<rightharpoonup> string) list"

datatype sql_double = SqlNull | SqlNaN | SqlFinite rat

record duckdb_env =
  files :: "string \<rightharpoonup> dataset"
  zero_division :: sql_double

definition count_star :: "dataset \<Rightarrow> int" where
  "count_star ds = int (length (rows ds))"


text \<open>\<open>SELECT COUNT(*) FROM '{rel_or_path}'\<close>: a query reads the files and leaves them as they are.\<close>

definition select_count :: "duckdb_env \<Rightarrow> string \<Rightarrow> (exn + int) \<times> duckdb_env" where
  "select_count db rel_or_path =
     (case files db rel_or_path of
        None \<Rightarrow> (Inl (EngineError ''IO Error: no such file''), db)
      | Some ds \<Rightarrow> (Inr (count_star ds), db))"

definition assert_min_rows :: "duckdb_env \<Rightarrow> string \<Rightarrow> int \<Rightarrow> (exn + unit) \<times> duckdb_env" where
  "assert_min_rows db rel_or_path min_rows_arg =
     (case select_count db rel_or_path of
        (Inl e, db') \<Rightarrow> (Inl e, db')
      | (Inr actual_rows, db') \<Rightarrow>
         if actual_rows < min_rows_arg
           then (Inl (ValueError (RowCountCheckFailed actual_rows min_rows_arg)), db')
         else (Inr (), db'))"






section \<open>Transform engine (\<open>etl_ops.run_sql\<close>)\<close>

text \<open>
  \<open>s.replace(old, new)\<close>: the occurrences of \<open>old\<close> are found from the left and do not
  overlap. With an empty \<open>old\<close>, \<open>new\<close> goes before every character and at the end.
\<close>

function py_replace :: "string \<Rightarrow> string \<Rightarrow> string \<Rightarrow> string" where
  "py_replace s old new =
     (if old = [] then new @ concat (map (\<lambda>c. c # new) s)
      else if s = [] then []
      else if startswith s old then new @ py_replace (drop (length old) s) old new
      else hd s # py_replace (tl s) old new)"
  by pat_completeness auto
termination
  by (relation "measure (\<lambda>(s, old, new). length s)") auto

declare py_replace.simps [simp del]

text \<open>The placeholder of a key: \<open>${key}\<close>.\<close>

definition placeholder :: "string \<Rightarrow> string" where
  "placeholder key = ''${'' @ key @ ''}''"

text \<open>
  The loop over \<open>params.items()\<close>, a dictionary in insertion order: one \<open>replace\<close> for each
  key, on the text the earlier ones left. The values are \<open>str\<close>, which \<open>str(value)\<close> returns
  as they are.
\<close>

fun substitute_params :: "string \<Rightarrow> (string \<times> string) list \<Rightarrow> string" where
  "substitute_params sql [] = sql"
| "substitute_params sql ((key, v) # rest) =
     substitute_params (py_replace sql (placeholder key) v) rest"

text \<open>
  The statements sent to DuckDB. What the engine answers is a parameter (\<open>None\<close>, or the
  exception it raises), and so are the text files and Python's \<open>hash\<close>.
\<close>

datatype statement =
    CreateOrReplaceView string string
      \<comment> \<open>\<open>CREATE OR REPLACE VIEW {name} AS SELECT * FROM '{data_path}'\<close>\<close>
  | CopyToParquet string string
      \<comment> \<open>\<open>COPY ({sql}) TO '{output_path}' (FORMAT PARQUET)\<close>\<close>

record sql_env =
  read_text :: "string \<rightharpoonup> string"
  py_hash :: "string \<Rightarrow> string"
  execute :: "statement \<Rightarrow> exn option"

text \<open>The result, and the statements executed or attempted, in order.\<close>

definition run_sql ::
  "sql_env \<Rightarrow> string \<Rightarrow> string \<Rightarrow> (string \<times> string) list \<Rightarrow> (exn + string) \<times> statement list" where
  "run_sql env data_path sql_path params_arg =
     (case read_text env sql_path of
        None \<Rightarrow> (Inl (OtherException ''FileNotFoundError''), [])
      | Some sql_template \<Rightarrow>
         (let sql = substitute_params sql_template params_arg;
              output_path = ''/tmp/etl_pipeline/transformed_'' @ py_hash env sql_path @ ''.parquet'';
              view = CreateOrReplaceView ''source_data'' data_path;
              copy = CopyToParquet sql output_path
          in case execute env view of
               Some e \<Rightarrow> (Inl e, [view])
             | None \<Rightarrow>
                (case execute env copy of
                   Some e \<Rightarrow> (Inl e, [view, copy])
                 | None \<Rightarrow> (Inr output_path, [view, copy]))))"

text \<open>
  The substitution in the words of the specification: a template is a sequence of literal
  text and placeholders, and every placeholder of a mapped key becomes the mapped value.
\<close>

datatype token = Lit string | Hole string

fun render_token :: "token \<Rightarrow> string" where
  "render_token (Lit s) = s"
| "render_token (Hole key) = placeholder key"

definition render :: "token list \<Rightarrow> string" where
  "render toks = concat (map render_token toks)"

fun fill_token :: "(string \<times> string) list \<Rightarrow> token \<Rightarrow> string" where
  "fill_token ps (Lit s) = s"
| "fill_token ps (Hole key) = (case map_of ps key of None \<Rightarrow> placeholder key | Some v \<Rightarrow> v)"

definition spec_substitute :: "token list \<Rightarrow> (string \<times> string) list \<Rightarrow> string" where
  "spec_substitute toks ps = concat (map (fill_token ps) toks)"

section \<open>Run catalog (\<open>catalog.record_run\<close>, \<open>catalog.get_pipeline_runs\<close>)\<close>

text \<open>
  A row of the table \<open>runs\<close>. A time is a number of microseconds; SQLite stores a
  \<open>datetime\<close> as its ISO text and orders the texts, which for datetimes without a time zone
  is the order of the times. \<open>NULL\<close> is \<open>None\<close>, and sorts before every value.
\<close>

record run_row =
  run_id :: int
  pipeline :: string
  status :: string
  rows_out :: "int option"
  output_paths :: "string option"
  started_at :: "int option"
  ended_at :: "int option"
  duration_seconds :: "rat option"
  error_message :: "string option"
  created_at :: int

text \<open>
  The catalog file: absent, there without a table \<open>runs\<close>, or there with the rows of the
  table in the order of insertion.
\<close>

datatype catalog = NoFile | NoRunsTable | RunsTable "run_row list"

text \<open>
  \<open>json.dumps\<close> and \<open>json.loads\<close> of the standard library, on the lists of strings the
  catalog stores, are parameters.
\<close>

record json_lib =
  json_dumps :: "string list \<Rightarrow> string"
  json_loads :: "string \<Rightarrow> exn + string list"

definition init_catalog_db :: "catalog \<Rightarrow> catalog" where
  "init_catalog_db cat =
     (case cat of
        NoFile \<Rightarrow> RunsTable []
      | NoRunsTable \<Rightarrow> RunsTable []
      | RunsTable rs \<Rightarrow> RunsTable rs)"

text \<open>The arguments of one call of \<open>record_run\<close>, and the clock SQLite reads for \<open>created_at\<close>.\<close>

record run_args =
  arg_pipeline :: string
  arg_status :: string
  arg_rows_out :: "int option"
  arg_output_paths :: "string list option"
  arg_started_at :: "int option"
  arg_ended_at :: "int option"
  arg_error_message :: "string option"
  arg_now :: int

definition duration_of :: "int option \<Rightarrow> int option \<Rightarrow> rat option" where
  "duration_of started ended =
     (case (started, ended) of
        (Some s, Some e) \<Rightarrow> Some (of_int (e - s) / 1000000)
      | _ \<Rightarrow> None)"

text \<open>\<open>output_paths or []\<close>.\<close>

definition paths_or_empty :: "string list option \<Rightarrow> string list" where
  "paths_or_empty ps = (case ps of None \<Rightarrow> [] | Some xs \<Rightarrow> xs)"

text \<open>\<open>AUTOINCREMENT\<close>: one more than the largest identifier; rows are never deleted.\<close>

definition next_run_id :: "run_row list \<Rightarrow> int" where
  "next_run_id rs = int (length rs) + 1"

definition new_row :: "json_lib \<Rightarrow> int \<Rightarrow> run_args \<Rightarrow> run_row" where
  "new_row j rid a =
     \<lparr>run_id = rid,
      pipeline = arg_pipeline a,
      status = arg_status a,
      rows_out = arg_rows_out a,
      output_paths = Some (json_dumps j (paths_or_empty (arg_output_paths a))),
      started_at = arg_started_at a,
      ended_at = arg_ended_at a,
      duration_seconds = duration_of (arg_started_at a) (arg_ended_at a),
      error_message = arg_error_message a,
      created_at = arg_now a\<rparr>"

text \<open>
  \<open>record_run\<close> creates the table when it is missing, inserts the row and commits. It then
  reads \<open>conn.lastrowid\<close>; a \<open>sqlite3.Connection\<close> has no such attribute (a cursor has), so
  the call ends in \<open>AttributeError\<close>, with the row committed.
\<close>

definition record_run :: "json_lib \<Rightarrow> catalog \<Rightarrow> run_args \<Rightarrow> (exn + int) \<times> catalog" where
  "record_run j cat a =
     (case init_catalog_db cat of
        RunsTable rs \<Rightarrow>
          (Inl (AttributeError ''lastrowid''), RunsTable (rs @ [new_row j (next_run_id rs) a]))
      | other \<Rightarrow> (Inl (EngineError ''no such table: runs''), other))"

text \<open>The catalog after a sequence of calls, whatever each call returned or raised.\<close>

fun record_runs :: "json_lib \<Rightarrow> catalog \<Rightarrow> run_args list \<Rightarrow> catalog" where
  "record_runs j cat [] = cat"
| "record_runs j cat (a # rest) = record_runs j (snd (record_run j cat a)) rest"

text \<open>
  \<open>ORDER BY started_at DESC\<close>. SQLite leaves the order of rows with equal keys open; the
  model sorts stably and reverses.
\<close>

definition order_by_started_at_desc :: "run_row list \<Rightarrow> run_row list" where
  "order_by_started_at_desc rs = rev (sort_key started_at rs)"

text \<open>\<open>LIMIT ?\<close>: a negative limit is no limit.\<close>

definition sql_limit :: "int \<Rightarrow> 'a list \<Rightarrow> 'a list" where
  "sql_limit lmt xs = (if lmt < 0 then xs else take (nat lmt) xs)"

text \<open>A run as returned: the row as a dictionary, \<open>output_paths\<close> parsed back to a list.\<close>

record run_dict =
  row :: run_row
  paths :: "string list"

text \<open>\<open>json.loads(run['output_paths'] or '[]')\<close>, run by run.\<close>

fun parse_runs :: "json_lib \<Rightarrow> run_row list \<Rightarrow> exn + run_dict list" where
  "parse_runs j [] = Inr []"
| "parse_runs j (r # rest) =
     (case json_loads j (case output_paths r of
                           None \<Rightarrow> ''[]''
                         | Some t \<Rightarrow> if t = [] then ''[]'' else t) of
        Inl e \<Rightarrow> Inl e
      | Inr ps \<Rightarrow>
         (case parse_runs j rest of
            Inl e \<Rightarrow> Inl e
          | Inr ds \<Rightarrow> Inr (\<lparr>row = r, paths = ps\<rparr> # ds)))"

definition get_pipeline_runs :: "json_lib \<Rightarrow> catalog \<Rightarrow> string \<Rightarrow> int \<Rightarrow> exn + run_dict list" where
  "get_pipeline_runs j cat p lmt =
     (case cat of
        NoFile \<Rightarrow> Inr []
      | NoRunsTable \<Rightarrow> Inl (EngineError ''no such table: runs'')
      | RunsTable rs \<Rightarrow>
         parse_runs j (sql_limit lmt (order_by_started_at_desc (filter (\<lambda>r. pipeline r = p) rs))))"

section \<open>Notions used in the properties\<close>

text \<open>A page after which the loop goes on: it has rows, and at least as many as the page size.\<close>

definition full_page ::
  "world \<Rightarrow> string \<Rightarrow> pagination_config option \<Rightarrow> since_config option \<Rightarrow> nat \<Rightarrow> bool" where
  "full_page w url pg since k =
     (case fetch_page w url pg since (int k + 1) k of
        Inl e \<Rightarrow> False
      | Inr records \<Rightarrow> records \<noteq> [] \<and> has_pagination pg \<and> page_size_of pg \<le> int (length records))"


text \<open>
  Text and keys that cannot be taken for part of a placeholder: text without \<open>$\<close>, keys
  without \<open>$\<close> and \<open>}\<close>.
\<close>

definition plain_text :: "string \<Rightarrow> bool" where
  "plain_text s = (CHR ''$'' \<notin> set s)"

definition clean_key :: "string \<Rightarrow> bool" where
  "clean_key k = (CHR ''$'' \<notin> set k \<and> CHR ''}'' \<notin> set k)"

fun token_ok :: "token \<Rightarrow> bool" where
  "token_ok (Lit s) = plain_text s"
| "token_ok (Hole k) = clean_key k"

text \<open>One replacement, on tokens: the placeholders of the key become the value.\<close>

fun fill_key :: "string \<Rightarrow> string \<Rightarrow> token \<Rightarrow> token" where
  "fill_key k v (Lit s) = Lit s"
| "fill_key k v (Hole k') = (if k' = k then Lit v else Hole k')"

section \<open>Example inputs\<close>

text \<open>
  A world with files under \<open>data/b_*.csv\<close> only, a pattern on which \<open>glob\<close> fails, and a
  server that answers 200 at one URL, 301 at another, and is not reachable otherwise.
\<close>

definition example_world :: world where
  "example_world =
     \<lparr>glob_glob = (\<lambda>p. if p = ''data/b_*.csv'' then Inr [''data/b_1.csv'']
                       else if p = ''/root/**'' then Inl (OtherException ''PermissionError'')
                       else Inr []),
      requests_head = (\<lambda>u. if u = ''https://api.example.com/v1/orders'' then Inr 200
                           else if u = ''https://api.example.com/moved'' then Inr 301
                           else Inl (RequestException ''connection refused'')),
      urljoin = (\<lambda>b p. b @ p),
      requests_get = (\<lambda>n u ps. Inl (RequestException ''connection refused''))\<rparr>"

definition file_source :: "string \<Rightarrow> string \<Rightarrow> string \<Rightarrow> source" where
  "file_source n p cond =
     \<lparr>stype = ''file'', name = n, enabled_if = cond, path = Some p,
      base_url = None, conn_id = None, table = None\<rparr>"

definition rest_source :: "string \<Rightarrow> string \<Rightarrow> string \<Rightarrow> string \<Rightarrow> source" where
  "rest_source n b p cond =
     \<lparr>stype = ''rest'', name = n, enabled_if = cond, path = Some p,
      base_url = Some b, conn_id = None, table = None\<rparr>"

definition example_spec :: "string \<Rightarrow> source list \<Rightarrow> string list \<Rightarrow> pipeline_spec" where
  "example_spec n ss ps =
     \<lparr>pipeline_name = n,
      schedule = \<lparr>on_demand = True, daily_02 = False, weekly_mon_06 = False\<rparr>,
      profile = ''dev'',
      sources = ss,
      source_routing = \<lparr>primary = ps\<rparr>,
      transform = \<lparr>sql_file = ''orders.sql'', params = []\<rparr>,
      outputs = \<lparr>sqlite = None, parquet = None\<rparr>,
      checks = \<lparr>min_rows = 1, null_ratio = None\<rparr>\<rparr>"

text \<open>
  A server with two pages of orders, two rows and then one, and nothing after them; and a
  server that has one more row for every request.
\<close>

definition paged_world :: world where
  "paged_world =
     \<lparr>glob_glob = (\<lambda>p. Inr []),
      requests_head = (\<lambda>u. Inr 200),
      urljoin = (\<lambda>b p. b @ p),
      requests_get = (\<lambda>n u ps.
        if ps ''page'' = Some (QInt 1)
          then Inr \<lparr>status_code = 200, json_body = Inr (JList [JNum 1, JNum 2])\<rparr>
        else if ps ''page'' = Some (QInt 2)
          then Inr \<lparr>status_code = 200, json_body = Inr (JDict [(''data'', JList [JNum 3])])\<rparr>
        else Inr \<lparr>status_code = 200, json_body = Inr (JList [])\<rparr>)\<rparr>"

definition endless_world :: world where
  "endless_world =
     \<lparr>glob_glob = (\<lambda>p. Inr []),
      requests_head = (\<lambda>u. Inr 200),
      urljoin = (\<lambda>b p. b @ p),
      requests_get = (\<lambda>n u ps. Inr \<lparr>status_code = 200, json_body = Inr (JList [JNum (int n)])\<rparr>)\<rparr>"

definition page_of_size :: "string \<Rightarrow> int \<Rightarrow> pagination_config option" where
  "page_of_size p n = Some \<lparr>pg_param = Some p, pg_size = Some n\<rparr>"

text \<open>
  Three files: four orders, two of them without a customer; five orders; and no rows at all.
  The engine answers a division by zero with \<open>NULL\<close>.
\<close>

definition order_row :: "string \<Rightarrow> string option \<Rightarrow> (string \<rightharpoonup> string)" where
  "order_row oid customer = (\<lambda>c. if c = ''order_id'' then Some oid
                                  else if c = ''customer_id'' then customer else None)"

definition example_orders :: dataset where
  "example_orders =
     \<lparr>columns = [''order_id'', ''customer_id''],
      rows = [order_row ''1'' (Some ''c1''), order_row ''2'' None,
              order_row ''3'' (Some ''c2''), order_row ''4'' None]\<rparr>"

definition example_db :: duckdb_env where
  "example_db =
     \<lparr>files =
        [''orders.parquet'' \<mapsto> example_orders,
         ''five.parquet'' \<mapsto>
           \<lparr>columns = [''order_id'', ''customer_id''],
            rows = [order_row ''1'' (Some ''c1''), order_row ''2'' (Some ''c1''),
                    order_row ''3'' (Some ''c2''), order_row ''4'' (Some ''c3''),
                    order_row ''5'' (Some ''c3'')]\<rparr>,
         ''empty.parquet'' \<mapsto> \<lparr>columns = [''order_id'', ''customer_id''], rows = []\<rparr>],
      zero_division = SqlNull\<rparr>"

text \<open>
  A stand-in for the \<open>json\<close> module, which writes a list between brackets with commas
  between the items, and three recorded runs, two of them of the pipeline \<open>orders\<close>.
\<close>

fun join_comma :: "string list \<Rightarrow> string" where
  "join_comma [] = []"
| "join_comma [x] = x"
| "join_comma (x # y # ys) = x @ '','' @ join_comma (y # ys)"

definition example_json :: json_lib where
  "example_json =
     \<lparr>json_dumps = (\<lambda>xs. ''['' @ join_comma xs @ '']''),
      json_loads = (\<lambda>t. if t = ''[]'' then Inr [] else Inr (py_split (butlast (tl t)) '',''))\<rparr>"

definition run_call :: "string \<Rightarrow> string \<Rightarrow> int option \<Rightarrow> string list option \<Rightarrow> run_args" where
  "run_call p st started ps =
     \<lparr>arg_pipeline = p, arg_status = st, arg_rows_out = None, arg_output_paths = ps,
      arg_started_at = started, arg_ended_at = None, arg_error_message = None, arg_now = 0\<rparr>"

definition example_calls :: "run_args list" where
  "example_calls =
     [run_call ''orders'' ''success'' (Some 100) (Some [''out.db#orders'', ''data/parquet'']),
      run_call ''items'' ''failed'' (Some 150) None,
      run_call ''orders'' ''success'' (Some 200) None]"

text \<open>
  A query template with three placeholders, the file that holds it, and a mapping for two
  of the keys, one value in quotes. The engine accepts every statement.
\<close>

definition example_sql_env :: sql_env where
  "example_sql_env =
     \<lparr>read_text = [''sql/orders.sql'' \<mapsto>
        ''SELECT * FROM source_data WHERE region = ${region} ORDER BY ${latest_col}, ${other}''],
      py_hash = (\<lambda>s. ''42''),
      execute = (\<lambda>st. None)\<rparr>"

definition example_template :: "token list" where
  "example_template =
     [Lit ''SELECT * FROM source_data WHERE region = '', Hole ''region'',
      Lit '' ORDER BY '', Hole ''latest_col'', Lit '', '', Hole ''other'']"

definition example_params :: "(string \<times> string) list" where
  "example_params = [(''region'', CHR 0x27 # ''EU'' @ [CHR 0x27]), (''latest_col'', ''updated_at'')]"


section \<open>Properties of the condition evaluator\<close>

lemma startswith_iff: "startswith s p \<longleftrightarrow> (\<exists>t. s = p @ t)"
  by (induction s p rule: startswith.induct) auto

lemma str_contains_iff: "str_contains s sub \<longleftrightarrow> (\<exists>a b. s = a @ sub @ b)"
proof (induction s)
  case Nil
  then show ?case by auto
next
  case (Cons c cs)
  show ?case
  proof
    assume "str_contains (c # cs) sub"
    then consider "startswith (c # cs) sub" | "str_contains cs sub" by auto
    then show "\<exists>a b. c # cs = a @ sub @ b"
    proof cases
      case 1
      then obtain t where "c # cs = sub @ t" by (auto simp: startswith_iff)
      then have "c # cs = [] @ sub @ t" by simp
      then show ?thesis by blast
    next
      case 2
      then obtain a b where "cs = a @ sub @ b" using Cons.IH by blast
      then have "c # cs = (c # a) @ sub @ b" by simp
      then show ?thesis by blast
    qed
  next
    assume "\<exists>a b. c # cs = a @ sub @ b"
    then obtain a b where ab: "c # cs = a @ sub @ b" by blast
    show "str_contains (c # cs) sub"
    proof (cases a)
      case Nil
      then have "startswith (c # cs) sub" using ab by (simp add: startswith_iff)
      then show ?thesis by simp
    next
      case (Cons x a')
      then have "cs = a' @ sub @ b" using ab by simp
      then show ?thesis using Cons.IH by auto
    qed
  qed
qed

lemma py_split_acc_nonempty: "py_split_acc sep acc s \<noteq> []"
  by (induction sep acc s rule: py_split_acc.induct) (subst py_split_acc.simps, simp)

lemma py_split_acc_no_sep:
  "\<not> str_contains s sep \<Longrightarrow> py_split_acc sep acc s = [acc @ s]"
proof (induction s arbitrary: acc)
  case Nil
  then show ?case by (simp add: py_split_acc.simps)
next
  case (Cons c cs)
  then show ?case by (subst py_split_acc.simps) simp
qed

lemma py_split_acc_two:
  "str_contains s sep \<Longrightarrow> sep \<noteq> [] \<Longrightarrow> 2 \<le> length (py_split_acc sep acc s)"
proof (induction s arbitrary: acc)
  case Nil
  then show ?case by simp
next
  case (Cons c cs)
  show ?case
  proof (cases "startswith (c # cs) sep")
    case True
    have "py_split_acc sep [] (drop (length sep) (c # cs)) \<noteq> []"
      by (rule py_split_acc_nonempty)
    then have "1 \<le> length (py_split_acc sep [] (drop (length sep) (c # cs)))"
      by (simp add: Suc_le_eq)
    then show ?thesis using True Cons.prems by (subst py_split_acc.simps) simp
  next
    case False
    then have "str_contains cs sep" using Cons.prems by simp
    then have "2 \<le> length (py_split_acc sep (acc @ [c]) cs)"
      using Cons.IH Cons.prems by blast
    then show ?thesis using False by (subst py_split_acc.simps) simp
  qed
qed

lemma contains_env_eq: "str_contains c ''env =='' \<Longrightarrow> str_contains c ''==''"
proof -
  assume "str_contains c ''env ==''"
  then obtain a b where "c = a @ ''env =='' @ b" by (auto simp: str_contains_iff)
  then have "c = (a @ ''env '') @ ''=='' @ b" by simp
  then show ?thesis unfolding str_contains_iff by blast
qed

lemma contains_eqeq_snoc:
  "q \<noteq> CHR ''='' \<Longrightarrow> str_contains (v @ [q]) ''=='' = str_contains v ''==''"
proof (induction v)
  case Nil
  then show ?case by simp
next
  case (Cons c cs)
  then show ?case by (cases cs) auto
qed

lemma quote_not_eq: "q \<in> set quote_chars \<Longrightarrow> q \<noteq> CHR ''=''"
  by (auto simp: quote_chars_def)

lemma quote_not_space: "q \<in> set quote_chars \<Longrightarrow> \<not> is_py_space q"
  by (auto simp: quote_chars_def is_py_space_def)

lemma split_quoted:
  assumes q1: "q1 \<in> set quote_chars" and q2: "q2 \<in> set quote_chars"
    and v: "\<not> str_contains v ''==''"
  shows "py_split (''env == '' @ [q1] @ v @ [q2]) ''=='' = [''env '', '' '' @ [q1] @ v @ [q2]]"
proof -
  have "\<not> str_contains (v @ [q2]) ''==''"
    using v q2 by (simp add: contains_eqeq_snoc quote_not_eq)
  then have "\<not> str_contains ('' '' @ [q1] @ v @ [q2]) ''==''"
    using q1 by (auto simp: quote_not_eq)
  then have "py_split_acc ''=='' [] ('' '' @ [q1] @ v @ [q2]) = [[] @ '' '' @ [q1] @ v @ [q2]]"
    by (rule py_split_acc_no_sep)
  then show ?thesis
    by (simp add: py_split_def py_split_acc.simps)
qed

lemma strip_quoted:
  assumes q1: "q1 \<in> set quote_chars" and q2: "q2 \<in> set quote_chars"
    and v: "v \<noteq> [] \<longrightarrow> hd v \<notin> set quote_chars \<and> last v \<notin> set quote_chars"
  shows "py_strip_chars (py_strip ('' '' @ [q1] @ v @ [q2])) quote_chars = v"
proof -
  have sp: "is_py_space (CHR '' '')" by (simp add: is_py_space_def)
  have n1: "\<not> is_py_space q1" and n2: "\<not> is_py_space q2"
    using q1 q2 by (simp_all add: quote_not_space)
  have s: "py_strip ('' '' @ [q1] @ v @ [q2]) = [q1] @ v @ [q2]"
    using sp n1 n2 by (simp add: py_strip_def)
  show ?thesis
  proof (cases "v = []")
    case True
    then show ?thesis using q1 q2 s
      by (simp add: py_strip_chars_def py_lstrip_chars_def py_rstrip_chars_def)
  next
    case False
    then have hx: "hd v \<notin> set quote_chars" and lx: "last v \<notin> set quote_chars"
      using v by auto
    have l: "dropWhile (\<lambda>c. c \<in> set quote_chars) (v @ [q2]) = v @ [q2]"
      using False hx by (cases v) auto
    have "hd (rev v) \<notin> set quote_chars" using lx False by (simp add: hd_rev)
    then have d: "dropWhile (\<lambda>c. c \<in> set quote_chars) (rev v) = rev v"
      using False by (cases "rev v") auto
    show ?thesis using q1 q2 s l d
      by (simp add: py_strip_chars_def py_lstrip_chars_def py_rstrip_chars_def)
  qed
qed

lemma evaluate_condition_split_length:
  assumes "str_contains c ''env ==''"
  shows "1 < length (py_split c ''=='')"
  using py_split_acc_two [OF contains_env_eq [OF assms], of "[]"] by (simp add: py_split_def)

lemma evaluate_condition_total: "\<exists>b. evaluate_condition c env = Inr b"
  using evaluate_condition_split_length [of c]
  by (auto simp: evaluate_condition_def py_index_def)

text \<open>
  C2, as stated, fails: a condition outside the grammar of the specification does not
  always evaluate to false. \<open>env == dev\<close>, with no quotes, and \<open>not env == 'dev'\<close> are
  no literals and no quoted equality tests, and in the environment \<open>dev\<close> both evaluate to
  true.
\<close>

theorem evaluate_condition_unquoted_counterexample:
  "\<not> spec_grammar ''env == dev'' \<and>
   evaluate_condition ''env == dev'' ''dev'' = Inr True \<and>
   \<not> spec_grammar (''not env == '' @ [CHR 0x27] @ ''dev'' @ [CHR 0x27]) \<and>
   evaluate_condition (''not env == '' @ [CHR 0x27] @ ''dev'' @ [CHR 0x27]) ''dev'' = Inr True"
  by (simp add: spec_grammar_def is_env_equality_def quote_chars_def evaluate_condition_def
      py_split_def py_split_acc.simps py_index_def py_strip_def py_strip_chars_def
      py_lstrip_chars_def py_rstrip_chars_def is_py_space_def)

text \<open>
  C2, amended: \<open>true\<close> evaluates to true and \<open>false\<close> to false in every environment. An
  equality test \<open>env == '<value>'\<close>, in single or double quotes, evaluates to true exactly
  when the environment equals the value, provided the value contains no \<open>==\<close> and neither
  starts nor ends with a quote character. Any other condition that contains the text
  \<open>env ==\<close> is read as a test too: it compares the environment with the text between the
  first and the second \<open>==\<close>, stripped of white space and then of quote characters. Every
  condition without \<open>env ==\<close> that is not a literal evaluates to false. No condition
  raises an exception.
\<close>

theorem evaluate_condition_cases:
  "evaluate_condition ''true'' env = Inr True \<and>
   evaluate_condition ''false'' env = Inr False \<and>
   (q1 \<in> set quote_chars \<and> q2 \<in> set quote_chars \<and> \<not> str_contains v ''=='' \<and>
      (v \<noteq> [] \<longrightarrow> hd v \<notin> set quote_chars \<and> last v \<notin> set quote_chars)
      \<longrightarrow> evaluate_condition (''env == '' @ [q1] @ v @ [q2]) env = Inr (env = v)) \<and>
   (c \<noteq> ''true'' \<and> c \<noteq> ''false'' \<and> str_contains c ''env ==''
      \<longrightarrow> evaluate_condition c env =
            Inr (env = py_strip_chars (py_strip (py_split c ''=='' ! 1)) quote_chars)) \<and>
   (c \<noteq> ''true'' \<and> c \<noteq> ''false'' \<and> \<not> str_contains c ''env ==''
      \<longrightarrow> evaluate_condition c env = Inr False) \<and>
   (\<exists>b. evaluate_condition c env = Inr b)"
proof -
  have t: "evaluate_condition ''true'' env = Inr True"
    by (simp add: evaluate_condition_def)
  have f: "evaluate_condition ''false'' env = Inr False"
    by (simp add: evaluate_condition_def)
  have two: "1 < length (py_split c ''=='')" if "str_contains c ''env ==''"
    using that by (rule evaluate_condition_split_length)
  have g: "evaluate_condition c env =
            Inr (env = py_strip_chars (py_strip (py_split c ''=='' ! 1)) quote_chars)"
    if "c \<noteq> ''true''" "c \<noteq> ''false''" "str_contains c ''env ==''"
    using that two by (simp add: evaluate_condition_def py_index_def)
  have n: "evaluate_condition c env = Inr False"
    if "c \<noteq> ''true''" "c \<noteq> ''false''" "\<not> str_contains c ''env ==''"
    using that by (simp add: evaluate_condition_def)
  have e: "\<exists>b. evaluate_condition c env = Inr b"
    by (rule evaluate_condition_total)
  have q: "evaluate_condition (''env == '' @ [q1] @ v @ [q2]) env = Inr (env = v)"
    if q1: "q1 \<in> set quote_chars" and q2: "q2 \<in> set quote_chars"
      and v1: "\<not> str_contains v ''==''"
      and v2: "v \<noteq> [] \<longrightarrow> hd v \<notin> set quote_chars \<and> last v \<notin> set quote_chars"
  proof -
    have "str_contains (''env == '' @ [q1] @ v @ [q2]) ''env ==''" by simp
    moreover have "py_index (py_split (''env == '' @ [q1] @ v @ [q2]) ''=='') 1
        = Inr ('' '' @ [q1] @ v @ [q2])"
      unfolding split_quoted [OF q1 q2 v1] by (simp add: py_index_def)
    moreover have "''env == '' @ [q1] @ v @ [q2] \<noteq> ''true''"
      and "''env == '' @ [q1] @ v @ [q2] \<noteq> ''false''" by simp_all
    ultimately show ?thesis
      unfolding evaluate_condition_def using strip_quoted [OF q1 q2 v2] by (simp del: append.simps)
  qed
  show ?thesis using t f g n e q by blast
qed

text \<open>
  C2, witness: the quoted tests of the specification in \<open>dev\<close> and \<open>prod\<close>, an unquoted
  test, and a condition without \<open>env ==\<close>.
\<close>

theorem evaluate_condition_cases_witness:
  "evaluate_condition (''env == '' @ [CHR 0x27] @ ''dev'' @ [CHR 0x27]) ''dev'' = Inr True \<and>
   evaluate_condition (''env == '' @ [CHR 0x22] @ ''dev'' @ [CHR 0x22]) ''prod'' = Inr False \<and>
   evaluate_condition ''env == dev'' ''dev'' = Inr True \<and>
   evaluate_condition ''environment'' ''prod'' = Inr False"
  using evaluate_condition_cases [of "''dev''" "CHR 0x27" "CHR 0x27" "''dev''" "''env == dev''"]
    evaluate_condition_cases [of "''prod''" "CHR 0x22" "CHR 0x22" "''dev''" "''environment''"]
  by (simp add: quote_chars_def py_split_def py_split_acc.simps py_strip_def py_strip_chars_def
      py_lstrip_chars_def py_rstrip_chars_def is_py_space_def)


section \<open>Properties of the probe and the selector\<close>

lemma probe_total: "\<exists>b. test_source_connectivity w s = Inr b"
  by (cases "probe_body w s") (auto simp: test_source_connectivity_def)

lemma probe_true_iff:
  "test_source_connectivity w s = Inr True \<longleftrightarrow> probe_body w s = Inr True"
  by (auto simp: test_source_connectivity_def split: sum.splits)

lemma enabled_sources_filter:
  "enabled_sources ss env =
     Inr (filter (\<lambda>s. evaluate_condition (enabled_if s) env = Inr True) ss)"
proof (induction ss)
  case Nil
  then show ?case by simp
next
  case (Cons s ss)
  obtain b where "evaluate_condition (enabled_if s) env = Inr b"
    using evaluate_condition_total by blast
  then show ?case using Cons by simp
qed

lemma probe_named_exists:
  "probe_named w n es =
     Inr (\<exists>s \<in> set es. name s = n \<and> test_source_connectivity w s = Inr True)"
proof (induction es)
  case Nil
  then show ?case by simp
next
  case (Cons s es)
  obtain b where b: "test_source_connectivity w s = Inr b"
    using probe_total by blast
  show ?case using Cons b by (cases b) auto
qed

lemma select_loop_find:
  "select_loop w es allp ps =
     (case find (\<lambda>n. \<exists>s \<in> set es. name s = n \<and> test_source_connectivity w s = Inr True) ps of
        Some n \<Rightarrow> Inr n
      | None \<Rightarrow> Inl (ValueError (NoAvailableSources (map name es) allp)))"
  by (induction ps) (auto simp: probe_named_exists)

lemma select_source_find:
  "select_source w spec env =
     (case find (\<lambda>n. \<exists>s \<in> set (sources spec). name s = n
                      \<and> evaluate_condition (enabled_if s) env = Inr True
                      \<and> test_source_connectivity w s = Inr True) (primary (source_routing spec)) of
        Some n \<Rightarrow> Inr n
      | None \<Rightarrow> Inl (ValueError (NoAvailableSources
                  (map name (filter (\<lambda>s. evaluate_condition (enabled_if s) env = Inr True)
                     (sources spec)))
                  (primary (source_routing spec)))))"
proof -
  have "(\<lambda>n. \<exists>s \<in> set (filter (\<lambda>s. evaluate_condition (enabled_if s) env = Inr True) (sources spec)).
              name s = n \<and> test_source_connectivity w s = Inr True)
      = (\<lambda>n. \<exists>s \<in> set (sources spec). name s = n
                      \<and> evaluate_condition (enabled_if s) env = Inr True
                      \<and> test_source_connectivity w s = Inr True)"
    by auto
  then show ?thesis
    by (simp add: select_source_def enabled_sources_filter select_loop_find)
qed

text \<open>
  C1: \<open>select_source\<close> returns the first name of \<open>source_routing.primary\<close> for which
  some source of that name has an \<open>enabled_if\<close> condition that is true in the environment
  and passes the connectivity probe. When no name of the list has such a source, it raises
  the error that carries the names of the enabled sources and the priority list. With
  sources \<open>[A, B]\<close>, both enabled, and priority \<open>[A, B]\<close>: if \<open>A\<close> is unreachable and \<open>B\<close>
  reachable the result is \<open>B\<close>, and if both are reachable the result is \<open>A\<close>.
\<close>

theorem select_source_first_usable:
  "select_source w spec env =
     (case find (\<lambda>n. \<exists>s \<in> set (sources spec). name s = n
                      \<and> evaluate_condition (enabled_if s) env = Inr True
                      \<and> test_source_connectivity w s = Inr True) (primary (source_routing spec)) of
        Some n \<Rightarrow> Inr n
      | None \<Rightarrow> Inl (ValueError (NoAvailableSources
                  (map name (filter (\<lambda>s. evaluate_condition (enabled_if s) env = Inr True)
                     (sources spec)))
                  (primary (source_routing spec))))) \<and>
   (sources spec = [a, b] \<and> primary (source_routing spec) = [name a, name b] \<and>
    evaluate_condition (enabled_if a) env = Inr True \<and>
    evaluate_condition (enabled_if b) env = Inr True \<and>
    test_source_connectivity w a = Inr False \<and>
    test_source_connectivity w b = Inr True
    \<longrightarrow> select_source w spec env = Inr (name b)) \<and>
   (sources spec = [a, b] \<and> primary (source_routing spec) = [name a, name b] \<and>
    evaluate_condition (enabled_if a) env = Inr True \<and>
    evaluate_condition (enabled_if b) env = Inr True \<and>
    test_source_connectivity w a = Inr True \<and>
    test_source_connectivity w b = Inr True
    \<longrightarrow> select_source w spec env = Inr (name a))"
proof -
  have unreachable: "select_source w spec env = Inr (name b)"
    if "sources spec = [a, b]" "primary (source_routing spec) = [name a, name b]"
      "evaluate_condition (enabled_if b) env = Inr True"
      "test_source_connectivity w a = Inr False"
      "test_source_connectivity w b = Inr True"
    using that by (auto simp: select_source_find)
  have reachable: "select_source w spec env = Inr (name a)"
    if "sources spec = [a, b]" "primary (source_routing spec) = [name a, name b]"
      "evaluate_condition (enabled_if a) env = Inr True"
      "test_source_connectivity w a = Inr True"
    using that by (simp add: select_source_find)
  show ?thesis using select_source_find [of w spec env] unreachable reachable by blast
qed

lemma example_probe_a:
  "test_source_connectivity example_world (file_source ''A'' ''data/a_*.csv'' ''true'') = Inr False"
  by (simp add: test_source_connectivity_def probe_body_def getitem_def test_file_exists_def
      example_world_def file_source_def)

lemma example_probe_b:
  "test_source_connectivity example_world (file_source ''B'' ''data/b_*.csv'' ''true'') = Inr True"
  by (simp add: test_source_connectivity_def probe_body_def getitem_def test_file_exists_def
      example_world_def file_source_def)

text \<open>
  C1, witness: file sources \<open>A\<close> (no file matches) and \<open>B\<close> (a file matches) give \<open>B\<close>; two
  reachable sources give the first; with \<open>B\<close> disabled the error lists the enabled \<open>A\<close>
  and the priority list.
\<close>

theorem select_source_first_usable_witness:
  "select_source example_world
     (example_spec ''orders''
        [file_source ''A'' ''data/a_*.csv'' ''true'', file_source ''B'' ''data/b_*.csv'' ''true'']
        [''A'', ''B'']) ''dev'' = Inr ''B'' \<and>
   select_source example_world
     (example_spec ''orders''
        [file_source ''B'' ''data/b_*.csv'' ''true'', file_source ''B2'' ''data/b_*.csv'' ''true'']
        [''B'', ''B2'']) ''dev'' = Inr ''B'' \<and>
   select_source example_world
     (example_spec ''orders''
        [file_source ''A'' ''data/a_*.csv'' ''true'', file_source ''B'' ''data/b_*.csv'' ''false'']
        [''A'', ''B'']) ''dev'' = Inl (ValueError (NoAvailableSources [''A''] [''A'', ''B'']))"
proof -
  have t: "evaluate_condition ''true'' ''dev'' = Inr True"
    and f: "evaluate_condition ''false'' ''dev'' = Inr False"
    by (simp_all add: evaluate_condition_def)
  have b2: "test_source_connectivity example_world (file_source ''B2'' ''data/b_*.csv'' ''true'') = Inr True"
    by (simp add: test_source_connectivity_def probe_body_def getitem_def test_file_exists_def
        example_world_def file_source_def)
  have bf: "test_source_connectivity example_world (file_source ''B'' ''data/b_*.csv'' ''false'') = Inr True"
    by (simp add: test_source_connectivity_def probe_body_def getitem_def test_file_exists_def
        example_world_def file_source_def)
  have 1: "select_source example_world
     (example_spec ''orders''
        [file_source ''A'' ''data/a_*.csv'' ''true'', file_source ''B'' ''data/b_*.csv'' ''true'']
        [''A'', ''B'']) ''dev'' = Inr ''B''"
    using select_source_first_usable [of example_world
        "example_spec ''orders''
          [file_source ''A'' ''data/a_*.csv'' ''true'', file_source ''B'' ''data/b_*.csv'' ''true'']
          [''A'', ''B'']" "''dev''"
        "file_source ''A'' ''data/a_*.csv'' ''true''" "file_source ''B'' ''data/b_*.csv'' ''true''"]
      t example_probe_a example_probe_b
    by (simp add: example_spec_def file_source_def)
  have 2: "select_source example_world
     (example_spec ''orders''
        [file_source ''B'' ''data/b_*.csv'' ''true'', file_source ''B2'' ''data/b_*.csv'' ''true'']
        [''B'', ''B2'']) ''dev'' = Inr ''B''"
    using select_source_first_usable [of example_world
        "example_spec ''orders''
          [file_source ''B'' ''data/b_*.csv'' ''true'', file_source ''B2'' ''data/b_*.csv'' ''true'']
          [''B'', ''B2'']" "''dev''"
        "file_source ''B'' ''data/b_*.csv'' ''true''" "file_source ''B2'' ''data/b_*.csv'' ''true''"]
      t example_probe_b b2
    by (simp add: example_spec_def file_source_def)
  have 3: "select_source example_world
     (example_spec ''orders''
        [file_source ''A'' ''data/a_*.csv'' ''true'', file_source ''B'' ''data/b_*.csv'' ''false'']
        [''A'', ''B'']) ''dev'' = Inl (ValueError (NoAvailableSources [''A''] [''A'', ''B'']))"
    using select_source_first_usable [of example_world
        "example_spec ''orders''
          [file_source ''A'' ''data/a_*.csv'' ''true'', file_source ''B'' ''data/b_*.csv'' ''false'']
          [''A'', ''B'']" "''dev''"]
      t f example_probe_a bf
    by (simp add: example_spec_def file_source_def)
  show ?thesis using 1 2 3 by simp
qed

text \<open>
  C9: the probe returns a boolean for every source and every world, and raises nothing. A
  file source is reachable exactly when \<open>glob\<close> returns at least one path for its pattern; a
  database source is always reachable; an exception raised in the body of the probe, such
  as a network exception of the HEAD request to a REST source, gives \<open>False\<close>.
\<close>

theorem probe_returns_boolean:
  "(\<exists>r. test_source_connectivity w s = Inr r) \<and>
   (stype s = ''file'' \<and> path s = Some p
      \<longrightarrow> (test_source_connectivity w s = Inr True
             \<longleftrightarrow> (\<exists>ms. glob_glob w p = Inr ms \<and> ms \<noteq> []))) \<and>
   (stype s = ''postgres'' \<longrightarrow> test_source_connectivity w s = Inr True) \<and>
   (probe_body w s = Inl e \<longrightarrow> test_source_connectivity w s = Inr False) \<and>
   (stype s = ''rest'' \<and> base_url s = Some b \<and> path s = Some p \<and>
    requests_head w (py_rstrip_chars b ''/'' @ ''/'' @ py_lstrip_chars p ''/'') = Inl e
      \<longrightarrow> test_source_connectivity w s = Inr False)"
proof -
  have fl: "test_source_connectivity w s = Inr True
             \<longleftrightarrow> (\<exists>ms. glob_glob w p = Inr ms \<and> ms \<noteq> [])"
    if "stype s = ''file''" "path s = Some p"
    using that
    by (cases "glob_glob w p")
       (auto simp: test_source_connectivity_def probe_body_def getitem_def test_file_exists_def)
  have pg: "test_source_connectivity w s = Inr True" if "stype s = ''postgres''"
    using that by (simp add: test_source_connectivity_def probe_body_def)
  have exc: "test_source_connectivity w s = Inr False" if "probe_body w s = Inl e"
    using that by (simp add: test_source_connectivity_def)
  have rest: "test_source_connectivity w s = Inr False"
    if "stype s = ''rest''" "base_url s = Some b" "path s = Some p"
      "requests_head w (py_rstrip_chars b ''/'' @ ''/'' @ py_lstrip_chars p ''/'') = Inl e"
    using that by (simp add: test_source_connectivity_def probe_body_def getitem_def)
  show ?thesis using probe_total [of w s] fl pg exc rest by blast
qed

text \<open>
  C9, witness: a file source with a matching file, a file source on whose pattern \<open>glob\<close>
  raises, and a REST source whose server cannot be reached.
\<close>

theorem probe_returns_boolean_witness:
  "test_source_connectivity example_world (file_source ''B'' ''data/b_*.csv'' ''true'') = Inr True \<and>
   test_source_connectivity example_world (file_source ''R'' ''/root/**'' ''true'') = Inr False \<and>
   test_source_connectivity example_world
     (rest_source ''api'' ''https://down.example.com'' ''v1'' ''true'') = Inr False"
proof -
  have 1: "test_source_connectivity example_world (file_source ''B'' ''data/b_*.csv'' ''true'') = Inr True"
    using probe_returns_boolean [of example_world "file_source ''B'' ''data/b_*.csv'' ''true''"
        "''data/b_*.csv''"]
    by (simp add: example_world_def file_source_def)
  have "probe_body example_world (file_source ''R'' ''/root/**'' ''true'')
          = Inl (OtherException ''PermissionError'')"
    by (simp add: probe_body_def getitem_def test_file_exists_def example_world_def file_source_def)
  then have 2: "test_source_connectivity example_world (file_source ''R'' ''/root/**'' ''true'') = Inr False"
    using probe_returns_boolean [of example_world "file_source ''R'' ''/root/**'' ''true''"
        _ "OtherException ''PermissionError''"]
    by simp
  have 3: "test_source_connectivity example_world
     (rest_source ''api'' ''https://down.example.com'' ''v1'' ''true'') = Inr False"
    using probe_returns_boolean [of example_world
        "rest_source ''api'' ''https://down.example.com'' ''v1'' ''true''"
        "''v1''" "RequestException ''connection refused''" "''https://down.example.com''"]
    by (simp add: example_world_def rest_source_def py_rstrip_chars_def py_lstrip_chars_def)
  show ?thesis using 1 2 3 by simp
qed

text \<open>
  C10: a REST source is reachable exactly when the HEAD request to
  \<open>base_url.rstrip('/') + '/' + path.lstrip('/')\<close> returns without an exception and with
  status 200; any other status, and any exception, make it unreachable.
\<close>

theorem rest_probe_status_200:
  "stype s = ''rest'' \<and> base_url s = Some b \<and> path s = Some p
    \<longrightarrow> (test_source_connectivity w s = Inr True
           \<longleftrightarrow> requests_head w (py_rstrip_chars b ''/'' @ ''/'' @ py_lstrip_chars p ''/'') = Inr 200) \<and>
        (test_source_connectivity w s = Inr False
           \<longleftrightarrow> requests_head w (py_rstrip_chars b ''/'' @ ''/'' @ py_lstrip_chars p ''/'') \<noteq> Inr 200)"
  by (cases "requests_head w (py_rstrip_chars b ''/'' @ ''/'' @ py_lstrip_chars p ''/'')")
     (auto simp: test_source_connectivity_def probe_body_def getitem_def)

text \<open>
  C10, witness: a server that answers 200 at one path and 301 at another.
\<close>

theorem rest_probe_status_200_witness:
  "test_source_connectivity example_world
     (rest_source ''api'' ''https://api.example.com/'' ''/v1/orders'' ''true'') = Inr True \<and>
   test_source_connectivity example_world
     (rest_source ''api'' ''https://api.example.com/'' ''/moved'' ''true'') = Inr False"
proof -
  have 1: "test_source_connectivity example_world
     (rest_source ''api'' ''https://api.example.com/'' ''/v1/orders'' ''true'') = Inr True"
    using rest_probe_status_200 [of "rest_source ''api'' ''https://api.example.com/'' ''/v1/orders'' ''true''"
        "''https://api.example.com/''" "''/v1/orders''" example_world]
    by (simp add: example_world_def rest_source_def py_rstrip_chars_def py_lstrip_chars_def)
  have 2: "test_source_connectivity example_world
     (rest_source ''api'' ''https://api.example.com/'' ''/moved'' ''true'') = Inr False"
    using rest_probe_status_200 [of "rest_source ''api'' ''https://api.example.com/'' ''/moved'' ''true''"
        "''https://api.example.com/''" "''/moved''" example_world]
    by (simp add: example_world_def rest_source_def py_rstrip_chars_def py_lstrip_chars_def)
  show ?thesis using 1 2 by simp
qed

section \<open>Properties of the REST pagination loop\<close>

lemma loop_error:
  "fetch_page w url pg since page n = Inl e
   \<Longrightarrow> rest_fetch_loop w url pg since page all n = (Inl e, Suc n)"
  by (subst rest_fetch_loop.simps) simp

lemma loop_empty_page:
  "fetch_page w url pg since page n = Inr []
   \<Longrightarrow> rest_fetch_loop w url pg since page all n = (Inr (all, page), Suc n)"
  by (subst rest_fetch_loop.simps) simp

lemma loop_short_page:
  "fetch_page w url pg since page n = Inr records \<Longrightarrow> records \<noteq> []
   \<Longrightarrow> \<not> has_pagination pg \<or> int (length records) < page_size_of pg
   \<Longrightarrow> rest_fetch_loop w url pg since page all n = (Inr (all @ records, page), Suc n)"
  by (subst rest_fetch_loop.simps) auto

lemma loop_ceiling:
  "fetch_page w url pg since page n = Inr records \<Longrightarrow> records \<noteq> []
   \<Longrightarrow> has_pagination pg \<Longrightarrow> page_size_of pg \<le> int (length records) \<Longrightarrow> 100 < page + 1
   \<Longrightarrow> rest_fetch_loop w url pg since page all n = (Inr (all @ records, page + 1), Suc n)"
  by (subst rest_fetch_loop.simps) auto

lemma loop_next:
  "fetch_page w url pg since page n = Inr records \<Longrightarrow> records \<noteq> []
   \<Longrightarrow> has_pagination pg \<Longrightarrow> page_size_of pg \<le> int (length records) \<Longrightarrow> page + 1 \<le> 100
   \<Longrightarrow> rest_fetch_loop w url pg since page all n
       = rest_fetch_loop w url pg since (page + 1) (all @ records) (Suc n)"
  by (subst rest_fetch_loop.simps) auto

lemma loop_step_cases:
  obtains (stop) "\<not> full_page w url pg since n"
      "\<And>all. snd (rest_fetch_loop w url pg since (int n + 1) all n) = Suc n"
  | (ceiling) records where "full_page w url pg since n" "100 < int n + 1 + 1"
      "fetch_page w url pg since (int n + 1) n = Inr records"
      "\<And>all. rest_fetch_loop w url pg since (int n + 1) all n
          = (Inr (all @ records, int n + 1 + 1), Suc n)"
  | (continue) records where "full_page w url pg since n" "int n + 1 + 1 \<le> 100"
      "fetch_page w url pg since (int n + 1) n = Inr records"
      "\<And>all. rest_fetch_loop w url pg since (int n + 1) all n
          = rest_fetch_loop w url pg since (int n + 1 + 1) (all @ records) (Suc n)"
proof (cases "fetch_page w url pg since (int n + 1) n")
  case (Inl e)
  then have "\<not> full_page w url pg since n" by (simp add: full_page_def)
  moreover have "\<And>all. snd (rest_fetch_loop w url pg since (int n + 1) all n) = Suc n"
    using Inl by (simp add: loop_error)
  ultimately show ?thesis by (rule stop)
next
  case (Inr records)
  show ?thesis
  proof (cases "full_page w url pg since n")
    case False
    have "snd (rest_fetch_loop w url pg since (int n + 1) all n) = Suc n" for all
    proof (cases "records = []")
      case True
      then show ?thesis using Inr by (simp add: loop_empty_page)
    next
      case ne: False
      then have "\<not> has_pagination pg \<or> int (length records) < page_size_of pg"
        using False Inr by (auto simp: full_page_def)
      then show ?thesis using Inr ne by (simp add: loop_short_page)
    qed
    with False show ?thesis by (rule stop)
  next
    case True
    then have f: "records \<noteq> []" "has_pagination pg" "page_size_of pg \<le> int (length records)"
      using Inr by (auto simp: full_page_def)
    show ?thesis
    proof (cases "int n + 1 + 1 \<le> 100")
      case le: True
      show ?thesis
        by (rule continue [OF True le Inr]) (rule loop_next [OF Inr f le])
    next
      case False
      then have gt: "100 < int n + 1 + 1" by simp
      show ?thesis
        by (rule ceiling [OF True gt Inr]) (rule loop_ceiling [OF Inr f gt])
    qed
  qed
qed

lemma loop_requests:
  "n < 100 \<Longrightarrow>
   n < snd (rest_fetch_loop w url pg since (int n + 1) all n) \<and>
   snd (rest_fetch_loop w url pg since (int n + 1) all n) \<le> 100 \<and>
   (\<forall>k. n \<le> k \<and> Suc k < snd (rest_fetch_loop w url pg since (int n + 1) all n)
        \<longrightarrow> full_page w url pg since k)"
proof (induction "100 - n" arbitrary: n all)
  case 0
  then show ?case by simp
next
  case (Suc d)
  show ?case
  proof (cases rule: loop_step_cases [of w url pg since n])
    case stop
    then show ?thesis using Suc.prems by auto
  next
    case (ceiling records)
    then show ?thesis using Suc.prems by auto
  next
    case (continue records)
    have lt: "Suc n < 100" using continue(2) by simp
    have d: "d = 100 - Suc n" using Suc.hyps(2) by simp
    have eq: "int (Suc n) + 1 = int n + 1 + 1" by simp
    have ih: "Suc n < snd (rest_fetch_loop w url pg since (int n + 1 + 1) (all @ records) (Suc n)) \<and>
        snd (rest_fetch_loop w url pg since (int n + 1 + 1) (all @ records) (Suc n)) \<le> 100 \<and>
        (\<forall>k. Suc n \<le> k \<and> Suc k < snd (rest_fetch_loop w url pg since (int n + 1 + 1) (all @ records) (Suc n))
             \<longrightarrow> full_page w url pg since k)"
      using Suc.hyps(1) [OF d lt, of "all @ records"] unfolding eq .
    have "full_page w url pg since k"
      if "n \<le> k" "Suc k < snd (rest_fetch_loop w url pg since (int n + 1 + 1) (all @ records) (Suc n))" for k
    proof (cases "k = n")
      case True
      then show ?thesis using continue(1) by simp
    next
      case False
      then have "Suc n \<le> k" using that(1) by simp
      then show ?thesis using ih that(2) by blast
    qed
    then show ?thesis using ih by (simp add: continue(4))
  qed
qed

lemma loop_all_full:
  "n < 100 \<Longrightarrow> (\<forall>k. n \<le> k \<and> k < 100 \<longrightarrow> full_page w url pg since k) \<Longrightarrow>
   \<exists>rows. rows \<noteq> [] \<and> rest_fetch_loop w url pg since (int n + 1) all n = (Inr (all @ rows, 101), 100)"
proof (induction "100 - n" arbitrary: n all)
  case 0
  then show ?case by simp
next
  case (Suc d)
  have full: "full_page w url pg since n" using Suc.prems by simp
  show ?case
  proof (cases rule: loop_step_cases [of w url pg since n])
    case stop
    then show ?thesis using full by simp
  next
    case (ceiling records)
    then have "n = 99" using Suc.prems(1) by simp
    moreover have "records \<noteq> []" using ceiling(1,3) by (simp add: full_page_def)
    ultimately show ?thesis using ceiling(4) [of all] by simp
  next
    case (continue records)
    have lt: "Suc n < 100" using continue(2) by simp
    have d: "d = 100 - Suc n" using Suc.hyps(2) by simp
    have eq: "int (Suc n) + 1 = int n + 1 + 1" by simp
    have "\<forall>k. Suc n \<le> k \<and> k < 100 \<longrightarrow> full_page w url pg since k" using Suc.prems(2) by simp
    then obtain rows where "rest_fetch_loop w url pg since (int n + 1 + 1) (all @ records) (Suc n)
        = (Inr ((all @ records) @ rows, 101), 100)"
      using Suc.hyps(1) [OF d lt, of "all @ records"] unfolding eq by blast
    moreover have "records \<noteq> []" using continue(1,3) by (simp add: full_page_def)
    ultimately have "records @ rows \<noteq> [] \<and>
        rest_fetch_loop w url pg since (int n + 1) all n = (Inr (all @ records @ rows, 101), 100)"
      by (simp add: continue(4))
    then show ?thesis by blast
  qed
qed

text \<open>
  C3: the pagination loop of \<open>rest_fetch\<close> ends, for every configuration and every server,
  after at least one and at most 100 requests (the model is a total function that also
  returns the number of requests sent). A page with fewer rows than the page size is the
  last one requested, and every page before the last had rows, at least as many as the page
  size, under a pagination descriptor. With no pagination descriptor there is exactly one
  request. A result that is not an exception never has zero rows; an empty first page
  raises the no-data error. When each of 100 pages is full, the loop stops at the ceiling
  with 100 requests and returns the rows: the ceiling is not an error.
\<close>

theorem rest_fetch_pagination:
  "1 \<le> snd (rest_fetch w base path0 pg since) \<and>
   snd (rest_fetch w base path0 pg since) \<le> 100 \<and>
   (\<forall>k records. k < snd (rest_fetch w base path0 pg since) \<and>
        fetch_page w (urljoin w base path0) pg since (int k + 1) k = Inr records \<and>
        int (length records) < page_size_of pg
      \<longrightarrow> Suc k = snd (rest_fetch w base path0 pg since)) \<and>
   (\<forall>k. Suc k < snd (rest_fetch w base path0 pg since)
      \<longrightarrow> full_page w (urljoin w base path0) pg since k) \<and>
   (\<not> has_pagination pg \<longrightarrow> snd (rest_fetch w base path0 pg since) = 1) \<and>
   (\<forall>r. fst (rest_fetch w base path0 pg since) = Inr r \<longrightarrow> fetched_rows r \<noteq> []) \<and>
   (fetch_page w (urljoin w base path0) pg since 1 0 = Inr []
      \<longrightarrow> fst (rest_fetch w base path0 pg since)
          = Inl (ValueError (NoDataReceived (urljoin w base path0)))) \<and>
   ((\<forall>k<100. full_page w (urljoin w base path0) pg since k)
      \<longrightarrow> snd (rest_fetch w base path0 pg since) = 100 \<and>
          (\<exists>r. fst (rest_fetch w base path0 pg since) = Inr r \<and> last_page r = 101))"
proof -
  define url where "url = urljoin w base path0"
  define out where "out = rest_fetch_loop w url pg since 1 [] 0"
  have n: "snd (rest_fetch w base path0 pg since) = snd out"
    by (cases out rule: prod.exhaust, cases "fst out")
       (auto simp: rest_fetch_def out_def url_def Let_def split: prod.splits sum.splits)
  have lr: "0 < snd out \<and> snd out \<le> 100 \<and>
      (\<forall>k. 0 \<le> k \<and> Suc k < snd out \<longrightarrow> full_page w url pg since k)"
    using loop_requests [of 0 w url pg since "[]"] by (simp add: out_def)
  have full: "full_page w url pg since k" if "Suc k < snd out" for k
    using lr that by simp
  have short: "Suc k = snd out"
    if "k < snd out" "fetch_page w url pg since (int k + 1) k = Inr records"
      "int (length records) < page_size_of pg" for k records
  proof (rule ccontr)
    assume "Suc k \<noteq> snd out"
    then have "Suc k < snd out" using that(1) by simp
    then have "full_page w url pg since k" by (rule full)
    then show False using that(2,3) by (simp add: full_page_def)
  qed
  have nopg: "snd out = 1" if "\<not> has_pagination pg"
  proof (cases rule: loop_step_cases [of w url pg since 0])
    case stop
    then show ?thesis by (simp add: out_def)
  next
    case (ceiling records)
    then show ?thesis by simp
  next
    case (continue records)
    then show ?thesis using that by (simp add: full_page_def)
  qed
  have nonempty: "fetched_rows r \<noteq> []" if "fst (rest_fetch w base path0 pg since) = Inr r" for r
    using that unfolding rest_fetch_def Let_def
    by (auto split: prod.splits sum.splits if_splits)
  have nodata: "fst (rest_fetch w base path0 pg since) = Inl (ValueError (NoDataReceived url))"
    if "fetch_page w url pg since 1 0 = Inr []"
    using loop_empty_page [OF that, of "[]"] by (simp add: rest_fetch_def url_def)
  have ceil: "snd out = 100 \<and> (\<exists>r. fst (rest_fetch w base path0 pg since) = Inr r \<and> last_page r = 101)"
    if "\<forall>k<100. full_page w url pg since k"
  proof -
    have "\<forall>k. 0 \<le> k \<and> k < 100 \<longrightarrow> full_page w url pg since k" using that by simp
    then have "\<exists>rows. rows \<noteq> [] \<and>
        rest_fetch_loop w url pg since (int 0 + 1) [] 0 = (Inr ([] @ rows, 101), 100)"
      by (intro loop_all_full) simp_all
    then obtain rows where "rows \<noteq> []"
      "rest_fetch_loop w url pg since 1 [] 0 = (Inr (rows, 101), 100)"
      by auto
    then show ?thesis by (simp add: out_def rest_fetch_def url_def)
  qed
  have bounds: "1 \<le> snd out" "snd out \<le> 100" using lr by simp_all
  show ?thesis
    unfolding n url_def [symmetric]
    using bounds short full nopg nonempty nodata ceil by blast
qed

lemma paged_two_pages:
  "rest_fetch paged_world ''https://api.example.com'' ''/orders'' (page_of_size ''page'' 2) None
     = (Inr \<lparr>fetched_rows = [JNum 1, JNum 2, JNum 3], last_page = 2\<rparr>, 2)"
  by (simp add: rest_fetch_def rest_fetch_loop.simps fetch_page_def request_params_def
      page_param_of_def page_size_of_def has_pagination_def page_of_size_def paged_world_def
      records_of_def dict_get_def)

lemma endless_full_page:
  "full_page endless_world url (page_of_size ''page'' 1) None k"
  by (simp add: full_page_def fetch_page_def endless_world_def records_of_def
      has_pagination_def page_size_of_def page_of_size_def)

text \<open>
  C3, witness: a server with a full page and a short page is asked twice and gives three
  rows; without pagination it is asked once; when the page parameter has another name its
  first page is empty and the result is the no-data error; a server that always has a full
  page is asked 100 times and the result is no error.
\<close>

theorem rest_fetch_pagination_witness:
  "rest_fetch paged_world ''https://api.example.com'' ''/orders'' (page_of_size ''page'' 2) None
     = (Inr \<lparr>fetched_rows = [JNum 1, JNum 2, JNum 3], last_page = 2\<rparr>, 2) \<and>
   full_page paged_world ''https://api.example.com/orders'' (page_of_size ''page'' 2) None 0 \<and>
   snd (rest_fetch paged_world ''https://api.example.com'' ''/orders'' None None) = 1 \<and>
   fst (rest_fetch paged_world ''https://api.example.com'' ''/orders'' (page_of_size ''p'' 2) None)
     = Inl (ValueError (NoDataReceived ''https://api.example.com/orders'')) \<and>
   snd (rest_fetch endless_world ''https://api.example.com'' ''/orders'' (page_of_size ''page'' 1) None)
     = 100 \<and>
   (\<exists>r. fst (rest_fetch endless_world ''https://api.example.com'' ''/orders''
              (page_of_size ''page'' 1) None) = Inr r \<and> last_page r = 101)"
proof -
  have u: "urljoin paged_world ''https://api.example.com'' ''/orders''
      = ''https://api.example.com/orders''"
    by (simp add: paged_world_def)
  have 1: "rest_fetch paged_world ''https://api.example.com'' ''/orders'' (page_of_size ''page'' 2) None
     = (Inr \<lparr>fetched_rows = [JNum 1, JNum 2, JNum 3], last_page = 2\<rparr>, 2)"
    by (rule paged_two_pages)
  have 2: "full_page paged_world ''https://api.example.com/orders'' (page_of_size ''page'' 2) None 0"
    using rest_fetch_pagination [of paged_world "''https://api.example.com''" "''/orders''"
        "page_of_size ''page'' 2" None] 1 u
    by simp
  have 3: "snd (rest_fetch paged_world ''https://api.example.com'' ''/orders'' None None) = 1"
    using rest_fetch_pagination [of paged_world "''https://api.example.com''" "''/orders''" None None]
    by (simp add: has_pagination_def)
  have "fetch_page paged_world ''https://api.example.com/orders'' (page_of_size ''p'' 2) None 1 0
      = Inr []"
    by (simp add: fetch_page_def request_params_def page_param_of_def page_size_of_def
        has_pagination_def page_of_size_def paged_world_def records_of_def)
  then have 4: "fst (rest_fetch paged_world ''https://api.example.com'' ''/orders''
        (page_of_size ''p'' 2) None)
     = Inl (ValueError (NoDataReceived ''https://api.example.com/orders''))"
    using rest_fetch_pagination [of paged_world "''https://api.example.com''" "''/orders''"
        "page_of_size ''p'' 2" None] u
    by simp
  have 5: "snd (rest_fetch endless_world ''https://api.example.com'' ''/orders''
        (page_of_size ''page'' 1) None) = 100 \<and>
     (\<exists>r. fst (rest_fetch endless_world ''https://api.example.com'' ''/orders''
              (page_of_size ''page'' 1) None) = Inr r \<and> last_page r = 101)"
    using rest_fetch_pagination [of endless_world "''https://api.example.com''" "''/orders''"
        "page_of_size ''page'' 1" None] endless_full_page
    by simp
  show ?thesis using 1 2 3 4 5 by simp
qed


section \<open>Properties of the specification model\<close>

lemma example_spec_sources: "sources (example_spec n ss ps) = ss"
  by (simp add: example_spec_def)

lemma example_spec_rename: "(example_spec n ss ps)\<lparr>pipeline_name := m\<rparr> = example_spec m ss ps"
  by (simp add: example_spec_def)

lemma example_spec_name: "pipeline_name (example_spec n ss ps) = n"
  by (simp add: example_spec_def)

lemma source_issues_empty_iff:
  "source_issues i ss = [] \<longleftrightarrow> (\<forall>s \<in> set ss. validates_as_source s)"
  by (induction ss arbitrary: i) auto

lemma PipelineSpec_accepts_iff:
  "PipelineSpec kwargs = Inr v \<longleftrightarrow>
     v = kwargs \<and> sources kwargs \<noteq> [] \<and> (\<forall>s \<in> set (sources kwargs). validates_as_source s)"
  by (auto simp: PipelineSpec_def validate_sources_def source_issues_empty_iff)

text \<open>
  C4, as stated, fails: construction does not fail when \<open>pipeline_name\<close> is empty. A
  specification with the empty name and one file source is accepted as it is.
\<close>

theorem PipelineSpec_empty_name_counterexample:
  "pipeline_name (example_spec [] [file_source ''A'' ''data/a_*.csv'' ''true''] [''A'']) = [] \<and>
   PipelineSpec (example_spec [] [file_source ''A'' ''data/a_*.csv'' ''true''] [''A''])
     = Inr (example_spec [] [file_source ''A'' ''data/a_*.csv'' ''true''] [''A''])"
  by (simp add: PipelineSpec_accepts_iff example_spec_sources example_spec_name
      file_source_def validates_as_source_def tag_matches_def)

text \<open>
  C4, amended: constructing a \<open>PipelineSpec\<close> fails with a validation error, that of the
  validator of \<open>sources\<close>, whenever the list of sources is empty. It succeeds, and returns the
  specification, exactly when there is at least one source and every source validates as
  one of the three variants. The name plays no part: with at least one source, construction
  with another name, the empty one too, has the same outcome.
\<close>

theorem PipelineSpec_sources_nonempty:
  "(sources kwargs = []
      \<longrightarrow> PipelineSpec kwargs
          = Inl (ValidationError [ValidatorRaised ''sources'' AtLeastOneSourceRequired])) \<and>
   (sources kwargs \<noteq> [] \<and> (\<forall>s \<in> set (sources kwargs). validates_as_source s)
      \<longrightarrow> PipelineSpec kwargs = Inr kwargs) \<and>
   (PipelineSpec kwargs = Inr v
      \<longrightarrow> v = kwargs \<and> sources kwargs \<noteq> [] \<and> (\<forall>s \<in> set (sources kwargs). validates_as_source s)) \<and>
   (sources kwargs \<noteq> [] \<longrightarrow>
      PipelineSpec (kwargs\<lparr>pipeline_name := n\<rparr>)
        = map_sum id (\<lambda>v. v\<lparr>pipeline_name := n\<rparr>) (PipelineSpec kwargs))"
proof -
  have e: "PipelineSpec kwargs
      = Inl (ValidationError [ValidatorRaised ''sources'' AtLeastOneSourceRequired])"
    if "sources kwargs = []"
    using that by (simp add: PipelineSpec_def validate_sources_def)
  have a: "PipelineSpec kwargs = Inr kwargs"
    if "sources kwargs \<noteq> []" "\<forall>s \<in> set (sources kwargs). validates_as_source s"
    using that by (simp add: PipelineSpec_accepts_iff)
  have r: "v = kwargs \<and> sources kwargs \<noteq> [] \<and> (\<forall>s \<in> set (sources kwargs). validates_as_source s)"
    if "PipelineSpec kwargs = Inr v"
    using that by (simp add: PipelineSpec_accepts_iff)
  have i: "PipelineSpec (kwargs\<lparr>pipeline_name := n\<rparr>)
        = map_sum id (\<lambda>v. v\<lparr>pipeline_name := n\<rparr>) (PipelineSpec kwargs)"
    if "sources kwargs \<noteq> []"
    using that by (simp add: PipelineSpec_def validate_sources_def)
  show ?thesis using e a r i by blast
qed

text \<open>
  C4, witness: no source is an error; one file source is accepted, under the name
  \<open>orders\<close> and under the empty name.
\<close>

theorem PipelineSpec_sources_nonempty_witness:
  "PipelineSpec (example_spec ''orders'' [] [])
     = Inl (ValidationError [ValidatorRaised ''sources'' AtLeastOneSourceRequired]) \<and>
   PipelineSpec (example_spec ''orders'' [file_source ''A'' ''data/a_*.csv'' ''true''] [''A''])
     = Inr (example_spec ''orders'' [file_source ''A'' ''data/a_*.csv'' ''true''] [''A'']) \<and>
   PipelineSpec (example_spec [] [file_source ''A'' ''data/a_*.csv'' ''true''] [''A''])
     = Inr (example_spec [] [file_source ''A'' ''data/a_*.csv'' ''true''] [''A''])"
proof -
  have v: "validates_as_source (file_source ''A'' ''data/a_*.csv'' ''true'')"
    by (simp add: file_source_def validates_as_source_def tag_matches_def)
  have 1: "PipelineSpec (example_spec ''orders'' [] [])
     = Inl (ValidationError [ValidatorRaised ''sources'' AtLeastOneSourceRequired])"
    using PipelineSpec_sources_nonempty [of "example_spec ''orders'' [] []"]
    by (simp only: example_spec_sources simp_thms)
  have 2: "PipelineSpec (example_spec ''orders'' [file_source ''A'' ''data/a_*.csv'' ''true''] [''A''])
     = Inr (example_spec ''orders'' [file_source ''A'' ''data/a_*.csv'' ''true''] [''A''])"
    using PipelineSpec_sources_nonempty
      [of "example_spec ''orders'' [file_source ''A'' ''data/a_*.csv'' ''true''] [''A'']"] v
    by (simp add: example_spec_sources)
  have 3: "PipelineSpec (example_spec [] [file_source ''A'' ''data/a_*.csv'' ''true''] [''A''])
     = Inr (example_spec [] [file_source ''A'' ''data/a_*.csv'' ''true''] [''A''])"
    using PipelineSpec_sources_nonempty
      [of "example_spec ''orders'' [file_source ''A'' ''data/a_*.csv'' ''true''] [''A'']" _ "[]"] 2
    by (simp add: example_spec_sources example_spec_rename)
  show ?thesis using 1 2 3 by simp
qed


section \<open>Properties of the quality gate\<close>

text \<open>
  C5: for a dataset that is there, \<open>assert_min_rows\<close> raises exactly when the number of
  rows is strictly below \<open>min_rows\<close>, and what it raises is the row-count error with the
  two numbers; otherwise it returns. Either way the files are as they were.
\<close>

theorem assert_min_rows_floor:
  "files db p = Some ds \<longrightarrow>
     count_star ds = int (length (rows ds)) \<and>
     ((\<exists>e. fst (assert_min_rows db p m) = Inl e) \<longleftrightarrow> count_star ds < m) \<and>
     (count_star ds < m
        \<longrightarrow> fst (assert_min_rows db p m) = Inl (ValueError (RowCountCheckFailed (count_star ds) m))) \<and>
     (fst (assert_min_rows db p m) = Inr () \<longleftrightarrow> \<not> count_star ds < m) \<and>
     snd (assert_min_rows db p m) = db"
proof
  assume f: "files db p = Some ds"
  then have q: "select_count db p = (Inr (count_star ds), db)"
    by (simp add: select_count_def)
  have below: "assert_min_rows db p m
      = (Inl (ValueError (RowCountCheckFailed (count_star ds) m)), db)"
    if "count_star ds < m"
    using that q by (simp add: assert_min_rows_def)
  have enough: "assert_min_rows db p m = (Inr (), db)" if "\<not> count_star ds < m"
    using that q by (simp add: assert_min_rows_def)
  have n: "count_star ds = int (length (rows ds))" by (simp add: count_star_def)
  show "count_star ds = int (length (rows ds)) \<and>
     ((\<exists>e. fst (assert_min_rows db p m) = Inl e) \<longleftrightarrow> count_star ds < m) \<and>
     (count_star ds < m
        \<longrightarrow> fst (assert_min_rows db p m) = Inl (ValueError (RowCountCheckFailed (count_star ds) m))) \<and>
     (fst (assert_min_rows db p m) = Inr () \<longleftrightarrow> \<not> count_star ds < m) \<and>
     snd (assert_min_rows db p m) = db"
  proof (cases "count_star ds < m")
    case True
    then show ?thesis using below n by simp
  next
    case False
    then show ?thesis using enough n by simp
  qed
qed

text \<open>
  C5, witness: five rows pass a floor of one, no rows fail it.
\<close>

theorem assert_min_rows_floor_witness:
  "assert_min_rows example_db ''five.parquet'' 1 = (Inr (), example_db) \<and>
   assert_min_rows example_db ''empty.parquet'' 1
     = (Inl (ValueError (RowCountCheckFailed 0 1)), example_db)"
proof -
  have 1: "assert_min_rows example_db ''five.parquet'' 1 = (Inr (), example_db)"
    using assert_min_rows_floor [of example_db "''five.parquet''" _ 1]
    by (simp add: example_db_def count_star_def prod_eq_iff)
  have 2: "assert_min_rows example_db ''empty.parquet'' 1
     = (Inl (ValueError (RowCountCheckFailed 0 1)), example_db)"
    using assert_min_rows_floor [of example_db "''empty.parquet''" _ 1]
    by (simp add: example_db_def count_star_def prod_eq_iff)
  show ?thesis using 1 2 by simp
qed










section \<open>Properties of the transform engine\<close>

lemma py_replace_Nil: "old \<noteq> [] \<Longrightarrow> py_replace [] old new = []"
  by (subst py_replace.simps) simp

lemma py_replace_match:
  "old \<noteq> [] \<Longrightarrow> py_replace (old @ t) old new = new @ py_replace t old new"
  by (subst py_replace.simps) (simp add: startswith_iff)

lemma py_replace_skip:
  "old \<noteq> [] \<Longrightarrow> \<not> startswith (c # t) old
   \<Longrightarrow> py_replace (c # t) old new = c # py_replace t old new"
  by (subst py_replace.simps) simp

lemma py_replace_plain:
  "plain_text s \<Longrightarrow> py_replace (s @ t) (CHR ''$'' # old) new = s @ py_replace t (CHR ''$'' # old) new"
proof (induction s)
  case Nil
  then show ?case by simp
next
  case (Cons c s)
  then have "c \<noteq> CHR ''$''" "plain_text s" by (auto simp: plain_text_def)
  then show ?case using Cons.IH by (simp add: py_replace_skip)
qed

lemma key_prefix_eq:
  "CHR ''}'' \<notin> set k \<Longrightarrow> CHR ''}'' \<notin> set k'
   \<Longrightarrow> startswith (k' @ CHR ''}'' # t) (k @ ''}'') \<Longrightarrow> k = k'"
proof (induction k arbitrary: k')
  case Nil
  then show ?case by (cases k') auto
next
  case (Cons c k)
  then show ?case by (cases k') auto
qed

lemma py_replace_other_hole:
  assumes "clean_key k" "clean_key k'" "k' \<noteq> k"
  shows "py_replace (placeholder k' @ t) (placeholder k) v
     = placeholder k' @ py_replace t (placeholder k) v"
proof -
  have ne: "\<not> startswith (CHR ''$'' # (''{'' @ k' @ ''}'') @ t) (placeholder k)"
    using assms key_prefix_eq [of k k' t] by (auto simp: placeholder_def clean_key_def)
  have pl: "plain_text (''{'' @ k' @ ''}'')"
    using assms(2) by (simp add: plain_text_def clean_key_def)
  have "py_replace (CHR ''$'' # (''{'' @ k' @ ''}'') @ t) (placeholder k) v
      = CHR ''$'' # py_replace ((''{'' @ k' @ ''}'') @ t) (placeholder k) v"
    using ne by (intro py_replace_skip) (simp_all add: placeholder_def)
  also have "py_replace ((''{'' @ k' @ ''}'') @ t) (placeholder k) v
      = (''{'' @ k' @ ''}'') @ py_replace t (placeholder k) v"
    using py_replace_plain [OF pl, of t "''{'' @ k @ ''}''" v] by (simp add: placeholder_def)
  finally show ?thesis by (simp add: placeholder_def)
qed

lemma py_replace_tokens:
  "\<forall>t \<in> set toks. token_ok t \<Longrightarrow> clean_key k
   \<Longrightarrow> py_replace (render toks) (placeholder k) v = render (map (fill_key k v) toks)"
proof (induction toks)
  case Nil
  then show ?case by (simp add: render_def py_replace_Nil placeholder_def)
next
  case (Cons tok toks)
  then have ih: "py_replace (render toks) (placeholder k) v = render (map (fill_key k v) toks)"
    by simp
  have r: "render (tok # toks) = render_token tok @ render toks"
    by (simp add: render_def)
  show ?case
  proof (cases tok)
    case (Lit s)
    then have "plain_text s" using Cons.prems by simp
    then have "py_replace (s @ render toks) (placeholder k) v
        = s @ py_replace (render toks) (placeholder k) v"
      using py_replace_plain [of s "render toks" "''{'' @ k @ ''}''" v]
      by (simp add: placeholder_def)
    then show ?thesis using Lit ih by (simp add: render_def)
  next
    case (Hole k')
    show ?thesis
    proof (cases "k' = k")
      case True
      have "py_replace (placeholder k @ render toks) (placeholder k) v
          = v @ py_replace (render toks) (placeholder k) v"
        by (rule py_replace_match) (simp add: placeholder_def)
      then show ?thesis using Hole True ih by (simp add: render_def)
    next
      case False
      have "clean_key k'" using Cons.prems Hole by simp
      then have "py_replace (placeholder k' @ render toks) (placeholder k) v
          = placeholder k' @ py_replace (render toks) (placeholder k) v"
        using Cons.prems(2) False by (intro py_replace_other_hole)
      then show ?thesis using Hole False ih by (simp add: render_def)
    qed
  qed
qed

lemma fill_key_ok: "token_ok t \<Longrightarrow> plain_text v \<Longrightarrow> token_ok (fill_key k v t)"
  by (cases t) auto

lemma fill_token_fill_key: "fill_token rest (fill_key k v t) = fill_token ((k, v) # rest) t"
  by (cases t) auto

lemma substitute_params_tokens:
  "\<forall>t \<in> set toks. token_ok t \<Longrightarrow> \<forall>(k, v) \<in> set ps. clean_key k \<and> plain_text v
   \<Longrightarrow> substitute_params (render toks) ps = spec_substitute toks ps"
proof (induction ps arbitrary: toks)
  case Nil
  have "fill_token [] = render_token"
  proof
    fix t show "fill_token [] t = render_token t" by (cases t) simp_all
  qed
  then show ?case by (simp add: render_def spec_substitute_def)
next
  case (Cons kv ps)
  obtain k v where kv: "kv = (k, v)" by (cases kv)
  have k: "clean_key k" and v: "plain_text v" using Cons.prems(2) kv by auto
  have ok: "\<forall>t \<in> set (map (fill_key k v) toks). token_ok t"
    using Cons.prems(1) v by (auto intro: fill_key_ok)
  have "substitute_params (render toks) (kv # ps)
      = substitute_params (render (map (fill_key k v) toks)) ps"
    using py_replace_tokens [OF Cons.prems(1) k, of v] kv by simp
  also have "\<dots> = spec_substitute (map (fill_key k v) toks) ps"
    using Cons.IH [OF ok] Cons.prems(2) by simp
  also have "\<dots> = spec_substitute toks (kv # ps)"
    by (simp add: spec_substitute_def kv fill_token_fill_key comp_def)
  finally show ?case .
qed

text \<open>
  C7, as stated, fails: the placeholder \<open>${a}\<close> of a template does not always become the
  mapped value of \<open>a\<close> as raw text. When that value is \<open>${b}\<close> and \<open>b\<close> is a later key of
  the mapping, the replacement for \<open>b\<close> rewrites it, and the result is the value of \<open>b\<close>.
\<close>

theorem substitute_params_nested_counterexample:
  "substitute_params (render [Hole ''a'']) [(''a'', ''${b}''), (''b'', ''x'')] = ''x'' \<and>
   spec_substitute [Hole ''a''] [(''a'', ''${b}''), (''b'', ''x'')] = ''${b}'' \<and>
   substitute_params (render [Hole ''a'']) [(''a'', ''${b}''), (''b'', ''x'')]
     \<noteq> spec_substitute [Hole ''a''] [(''a'', ''${b}''), (''b'', ''x'')]"
  by (simp add: render_def spec_substitute_def placeholder_def py_replace.simps)

text \<open>
  C7, amended: the substitution runs one \<open>replace\<close> for each key, in the order of the
  mapping, each on the text the earlier ones left. For a template of literal text without
  \<open>$\<close> and placeholders whose keys have neither \<open>$\<close> nor \<open>}\<close>, and a mapping whose keys are
  such keys and whose values have no \<open>$\<close>, the result is the template with every
  placeholder of a mapped key replaced by the mapped value, as raw text, with no escaping,
  and every other placeholder left as it is. \<open>run_sql\<close> first creates the view
  \<open>source_data\<close> over the extracted dataset, then copies the result of the substituted
  query to the output file, and returns the path of that file when the engine accepts both.
\<close>

theorem run_sql_substitution:
  "(\<forall>t \<in> set toks. token_ok t) \<and> (\<forall>(k, v) \<in> set ps. clean_key k \<and> plain_text v)
    \<longrightarrow> substitute_params (render toks) ps = spec_substitute toks ps \<and>
        (read_text env sql_path = Some (render toks) \<longrightarrow>
           take 1 (snd (run_sql env data_path sql_path ps))
             = [CreateOrReplaceView ''source_data'' data_path] \<and>
           (execute env (CreateOrReplaceView ''source_data'' data_path) = None \<longrightarrow>
              snd (run_sql env data_path sql_path ps)
                = [CreateOrReplaceView ''source_data'' data_path,
                   CopyToParquet (spec_substitute toks ps)
                     (''/tmp/etl_pipeline/transformed_'' @ py_hash env sql_path @ ''.parquet'')]) \<and>
           (execute env (CreateOrReplaceView ''source_data'' data_path) = None \<and>
            execute env (CopyToParquet (spec_substitute toks ps)
                     (''/tmp/etl_pipeline/transformed_'' @ py_hash env sql_path @ ''.parquet'')) = None \<longrightarrow>
              fst (run_sql env data_path sql_path ps)
                = Inr (''/tmp/etl_pipeline/transformed_'' @ py_hash env sql_path @ ''.parquet'')))"
proof -
  have run: "take 1 (snd (run_sql env data_path sql_path ps))
             = [CreateOrReplaceView ''source_data'' data_path] \<and>
           (execute env (CreateOrReplaceView ''source_data'' data_path) = None \<longrightarrow>
              snd (run_sql env data_path sql_path ps)
                = [CreateOrReplaceView ''source_data'' data_path,
                   CopyToParquet (spec_substitute toks ps)
                     (''/tmp/etl_pipeline/transformed_'' @ py_hash env sql_path @ ''.parquet'')]) \<and>
           (execute env (CreateOrReplaceView ''source_data'' data_path) = None \<and>
            execute env (CopyToParquet (spec_substitute toks ps)
                     (''/tmp/etl_pipeline/transformed_'' @ py_hash env sql_path @ ''.parquet'')) = None \<longrightarrow>
              fst (run_sql env data_path sql_path ps)
                = Inr (''/tmp/etl_pipeline/transformed_'' @ py_hash env sql_path @ ''.parquet''))"
    if s: "substitute_params (render toks) ps = spec_substitute toks ps"
      and r: "read_text env sql_path = Some (render toks)"
    using s r by (auto simp: run_sql_def Let_def split: option.splits)
  show ?thesis using substitute_params_tokens [of toks ps] run by blast
qed

text \<open>
  C7, witness: a template with three placeholders and a mapping for two of them, one value
  with its quotes; the third placeholder stays.
\<close>

theorem run_sql_substitution_witness:
  "run_sql example_sql_env ''/tmp/etl_pipeline/extracted_7.parquet'' ''sql/orders.sql'' example_params
     = (Inr ''/tmp/etl_pipeline/transformed_42.parquet'',
        [CreateOrReplaceView ''source_data'' ''/tmp/etl_pipeline/extracted_7.parquet'',
         CopyToParquet
           (''SELECT * FROM source_data WHERE region = '' @ CHR 0x27 # ''EU'' @ CHR 0x27 #
            '' ORDER BY updated_at, ${other}'')
           ''/tmp/etl_pipeline/transformed_42.parquet''])"
proof -
  have t: "\<forall>t \<in> set example_template. token_ok t"
    by (simp add: example_template_def plain_text_def clean_key_def)
  have p: "\<forall>(k, v) \<in> set example_params. clean_key k \<and> plain_text v"
    by (simp add: example_params_def plain_text_def clean_key_def)
  have r: "read_text example_sql_env ''sql/orders.sql'' = Some (render example_template)"
    by (simp add: example_sql_env_def example_template_def render_def placeholder_def)
  have s: "spec_substitute example_template example_params
      = ''SELECT * FROM source_data WHERE region = '' @ CHR 0x27 # ''EU'' @ CHR 0x27 #
            '' ORDER BY updated_at, ${other}''"
    by (simp add: example_template_def example_params_def spec_substitute_def placeholder_def)
  have e: "execute example_sql_env st = None" for st by (simp add: example_sql_env_def)
  have h: "py_hash example_sql_env ''sql/orders.sql'' = ''42''" by (simp add: example_sql_env_def)
  show ?thesis
    using run_sql_substitution [of example_template example_params example_sql_env
        "''sql/orders.sql''" "''/tmp/etl_pipeline/extracted_7.parquet''"] t p r
    by (simp only: s e h prod_eq_iff fst_conv snd_conv simp_thms) simp
qed


section \<open>Properties of the run catalog\<close>















lemma example_calls_runs:
  "get_pipeline_runs example_json (record_runs example_json NoFile example_calls) ''orders'' 10
     = Inr [\<lparr>row = new_row example_json 3 (run_call ''orders'' ''success'' (Some 200) None),
             paths = []\<rparr>,
            \<lparr>row = new_row example_json 1
                     (run_call ''orders'' ''success'' (Some 100)
                        (Some [''out.db#orders'', ''data/parquet''])),
             paths = [''out.db#orders'', ''data/parquet'']\<rparr>]"
  by (simp add: example_calls_def get_pipeline_runs_def record_run_def init_catalog_db_def
      next_run_id_def sql_limit_def order_by_started_at_desc_def new_row_def run_call_def
      example_json_def paths_or_empty_def py_split_def py_split_acc.simps)





end
